theory Spec2Isabelle
  imports Complex_Main "HOL-Library.Word"
begin

unbundle bit_operations_syntax

section \<open>JavaScript numbers as the encoders use them\<close>

text \<open>
  The samples are elements of a \<^verbatim>\<open>Float32Array\<close>: a NaN, one of the two infinities, or
  a finite binary fraction with a 24-bit significand. The only arithmetic the encoders
  perform on a sample is a comparison with a literal, \<^verbatim>\<open>Math.min\<close>/\<^verbatim>\<open>Math.max\<close> against
  a literal and one multiplication by 32768 or 32767. On a finite 32-bit float these
  products need at most 39 significant bits and stay far inside the exponent range of a
  double, so the double-precision result is the exact product. A finite sample is therefore
  modelled by its exact value, a real number; negative zero is identified with zero (no
  operation below distinguishes them).
\<close>

datatype jsnum = NaN | NegInf | PosInf | Fin real

text \<open>The operator \<^verbatim>\<open><\<close>: false as soon as one side is NaN.\<close>

fun js_lt :: "jsnum \<Rightarrow> jsnum \<Rightarrow> bool" where
  "js_lt NaN _ = False"
| "js_lt _ NaN = False"
| "js_lt _ NegInf = False"
| "js_lt NegInf _ = True"
| "js_lt PosInf _ = False"
| "js_lt (Fin a) PosInf = True"
| "js_lt (Fin a) (Fin b) = (a < b)"

text \<open>\<^verbatim>\<open>Math.min(a, b)\<close> and \<^verbatim>\<open>Math.max(a, b)\<close>: NaN if either argument is NaN.\<close>

definition Math_min :: "jsnum \<Rightarrow> jsnum \<Rightarrow> jsnum" where
  "Math_min a b = (if a = NaN \<or> b = NaN then NaN else if js_lt b a then b else a)"

definition Math_max :: "jsnum \<Rightarrow> jsnum \<Rightarrow> jsnum" where
  "Math_max a b = (if a = NaN \<or> b = NaN then NaN else if js_lt a b then b else a)"

text \<open>The product \<^verbatim>\<open>x * c\<close> of a number with a finite literal \<open>c\<close>.\<close>

fun js_times :: "jsnum \<Rightarrow> real \<Rightarrow> jsnum" where
  "js_times NaN c = NaN"
| "js_times (Fin a) c = Fin (a * c)"
| "js_times PosInf c = (if 0 < c then PosInf else if c < 0 then NegInf else NaN)"
| "js_times NegInf c = (if 0 < c then NegInf else if c < 0 then PosInf else NaN)"

text \<open>
  Storing a number into an \<^verbatim>\<open>Int16Array\<close> element or through \<^verbatim>\<open>DataView.setInt16\<close>
  applies ToInt16: NaN and the infinities become 0, a finite value is truncated towards
  zero and reduced modulo \<open>2^16\<close>.
\<close>

definition trunc :: "real \<Rightarrow> int" where
  "trunc x = (if x < 0 then \<lceil>x\<rceil> else \<lfloor>x\<rfloor>)"

fun ToInt16 :: "jsnum \<Rightarrow> 16 word" where
  "ToInt16 (Fin x) = word_of_int (trunc x)"
| "ToInt16 NaN = 0"
| "ToInt16 NegInf = 0"
| "ToInt16 PosInf = 0"

text \<open>
  The WAV encoders, for one sample (AudioRecorder.tsx lines 695-696, and the same two
  lines of \<^verbatim>\<open>encodeWAV\<close>):
  \<^verbatim>\<open>const s = Math.max(-1, Math.min(1, pcm[i]));
  view.setInt16(idx, s < 0 ? s * 0x8000 : s * 0x7fff, true);\<close>
  \<open>wav_scaled\<close> is the number handed to \<^verbatim>\<open>setInt16\<close>, \<open>wav_sample\<close> the 16-bit value
  that \<^verbatim>\<open>setInt16\<close> stores for it.
\<close>

definition wav_scaled :: "jsnum \<Rightarrow> jsnum" where
  "wav_scaled x =
     (let s = Math_max (Fin (- 1)) (Math_min (Fin 1) x)
      in if js_lt s (Fin 0) then js_times s 32768 else js_times s 32767)"

definition wav_sample :: "jsnum \<Rightarrow> 16 word" where
  "wav_sample x = ToInt16 (wav_scaled x)"

text \<open>
  \<^verbatim>\<open>getMp3Blob\<close>, for one sample (AudioRecorder.tsx lines 386-389):
  \<^verbatim>\<open>leftInt16[i] = Math.max(-32768, Math.min(32767, leftChannel[i] * 32768));\<close>
  \<open>mp3_scaled\<close> is the number assigned, \<open>mp3_sample\<close> the 16-bit value the
  \<^verbatim>\<open>Int16Array\<close> keeps of it.
\<close>

definition mp3_scaled :: "jsnum \<Rightarrow> jsnum" where
  "mp3_scaled x = Math_max (Fin (- 32768)) (Math_min (Fin 32767) (js_times x 32768))"

definition mp3_sample :: "jsnum \<Rightarrow> 16 word" where
  "mp3_sample x = ToInt16 (mp3_scaled x)"

section \<open>Results, typed arrays and the DataView\<close>

text \<open>
  A JavaScript exception is a value, each kind with its message: \<open>RangeError\<close> is what a
  \<^verbatim>\<open>DataView\<close> setter and \<^verbatim>\<open>TypedArray.prototype.set\<close> throw on a write that does not
  fit, \<open>Error msg\<close> is \<^verbatim>\<open>new Error(msg)\<close>, and \<open>DOMException msg\<close> is an exception of the
  host (a rejected device request, a source that does not decode).
\<close>

datatype js_error = RangeError string | Error string | DOMException string

text \<open>\<^verbatim>\<open>e instanceof Error ? e.message : String(e)\<close>; all three kinds are instances of Error.\<close>

fun error_message :: "js_error \<Rightarrow> string" where
  "error_message (RangeError msg) = msg"
| "error_message (Error msg) = msg"
| "error_message (DOMException msg) = msg"

definition and_then :: "js_error + 'a \<Rightarrow> ('a \<Rightarrow> js_error + 'b) \<Rightarrow> js_error + 'b" where
  "and_then r f = (case r of Inl e \<Rightarrow> Inl e | Inr v \<Rightarrow> f v)"

lemma and_then_cong [fundef_cong]:
  "r = r' \<Longrightarrow> (\<And>v. r' = Inr v \<Longrightarrow> f v = f' v) \<Longrightarrow> and_then r f = and_then r' f'"
  by (auto simp: and_then_def split: sum.splits)

type_synonym byte = "8 word"

text \<open>
  Overwriting the elements from offset \<open>off\<close> on with \<open>src\<close>. Both \<^verbatim>\<open>target.set(src, off)\<close>
  on a typed array and the setters of a \<^verbatim>\<open>DataView\<close> throw a RangeError, and write nothing,
  when the data does not fit.
\<close>

definition overwrite_at :: "'a list \<Rightarrow> nat \<Rightarrow> 'a list \<Rightarrow> js_error + 'a list" where
  "overwrite_at target off src =
     (if off + length src \<le> length target
      then Inr (take off target @ src @ drop (off + length src) target)
      else Inl (RangeError ''offset is out of bounds''))"

definition typed_array_set :: "'a list \<Rightarrow> 'a list \<Rightarrow> nat \<Rightarrow> js_error + 'a list" where
  "typed_array_set target src off = overwrite_at target off src"

text \<open>The bytes of a 16-bit and of a 32-bit value, least significant byte first.\<close>

definition le_bytes16 :: "16 word \<Rightarrow> byte list" where
  "le_bytes16 w = [ucast w, ucast (drop_bit 8 w)]"

definition le_bytes32 :: "32 word \<Rightarrow> byte list" where
  "le_bytes32 w = [ucast w, ucast (drop_bit 8 w), ucast (drop_bit 16 w), ucast (drop_bit 24 w)]"

text \<open>
  The setters of a \<^verbatim>\<open>DataView\<close> over the whole buffer. The value is a number: the unsigned
  setters are only called on non-negative integers and reduce them modulo \<open>2^8\<close>, \<open>2^16\<close>
  and \<open>2^32\<close>; \<^verbatim>\<open>setInt16\<close> applies ToInt16. The last argument is the
  \<^verbatim>\<open>littleEndian\<close> flag.
\<close>

definition setUint8 :: "byte list \<Rightarrow> nat \<Rightarrow> nat \<Rightarrow> js_error + byte list" where
  "setUint8 view off v = overwrite_at view off [of_nat v]"

definition setUint16 :: "byte list \<Rightarrow> nat \<Rightarrow> nat \<Rightarrow> bool \<Rightarrow> js_error + byte list" where
  "setUint16 view off v littleEndian =
     overwrite_at view off
       (if littleEndian then le_bytes16 (of_nat v) else rev (le_bytes16 (of_nat v)))"

definition setUint32 :: "byte list \<Rightarrow> nat \<Rightarrow> nat \<Rightarrow> bool \<Rightarrow> js_error + byte list" where
  "setUint32 view off v littleEndian =
     overwrite_at view off
       (if littleEndian then le_bytes32 (of_nat v) else rev (le_bytes32 (of_nat v)))"

definition setInt16 :: "byte list \<Rightarrow> nat \<Rightarrow> jsnum \<Rightarrow> bool \<Rightarrow> js_error + byte list" where
  "setInt16 view off v littleEndian =
     overwrite_at view off
       (if littleEndian then le_bytes16 (ToInt16 v) else rev (le_bytes16 (ToInt16 v)))"

record blob =
  blob_bytes :: "byte list"
  blob_type :: string

section \<open>The WAV encoder of the AudioRecorder component\<close>

text \<open>
  \<^verbatim>\<open>writeAscii\<close> (AudioRecorder.tsx lines 701-704): one \<^verbatim>\<open>setUint8\<close> per character,
  with the character's code.
\<close>

fun writeAscii :: "byte list \<Rightarrow> nat \<Rightarrow> string \<Rightarrow> js_error + byte list" where
  "writeAscii view offset [] = Inr view"
| "writeAscii view offset (c # cs) =
     and_then (setUint8 view offset (of_char c)) (\<lambda>view'. writeAscii view' (offset + 1) cs)"

text \<open>
  Lines 667-674: the chunks are copied, one after the other, into a new
  \<^verbatim>\<open>Float32Array\<close> of their total length.
\<close>

definition total_length :: "'a list list \<Rightarrow> nat" where
  "total_length chunks = foldl (\<lambda>total c. total + length c) 0 chunks"

fun copy_chunks :: "jsnum list \<Rightarrow> nat \<Rightarrow> jsnum list list \<Rightarrow> js_error + jsnum list" where
  "copy_chunks pcm off [] = Inr pcm"
| "copy_chunks pcm off (c # cs) =
     and_then (typed_array_set pcm c off) (\<lambda>pcm'. copy_chunks pcm' (off + length c) cs)"

text \<open>Lines 693-697: the loop over the samples, \<open>idx\<close> advancing by two bytes.\<close>

fun write_samples :: "byte list \<Rightarrow> nat \<Rightarrow> jsnum list \<Rightarrow> js_error + byte list" where
  "write_samples view idx [] = Inr view"
| "write_samples view idx (x # xs) =
     and_then (setInt16 view idx (wav_scaled x) True)
       (\<lambda>view'. write_samples view' (idx + 2) xs)"

text \<open>\<^verbatim>\<open>buildWavFromFloat32\<close> (lines 663-699).\<close>

definition buildWavFromFloat32 :: "jsnum list list \<Rightarrow> nat \<Rightarrow> js_error + blob" where
  "buildWavFromFloat32 chunks sampleRate =
     and_then (copy_chunks (replicate (total_length chunks) (Fin 0)) 0 chunks) (\<lambda>pcm.
     let bytesPerSample = 2;
         blockAlign = 1 * bytesPerSample;
         buffer = replicate (44 + length pcm * bytesPerSample) (0 :: byte)
     in
     and_then (writeAscii buffer 0 ''RIFF'') (\<lambda>view.
     and_then (setUint32 view 4 (36 + length pcm * bytesPerSample) True) (\<lambda>view.
     and_then (writeAscii view 8 ''WAVE'') (\<lambda>view.
     and_then (writeAscii view 12 ''fmt '') (\<lambda>view.
     and_then (setUint32 view 16 16 True) (\<lambda>view.
     and_then (setUint16 view 20 1 True) (\<lambda>view.
     and_then (setUint16 view 22 1 True) (\<lambda>view.
     and_then (setUint32 view 24 sampleRate True) (\<lambda>view.
     and_then (setUint32 view 28 (sampleRate * blockAlign) True) (\<lambda>view.
     and_then (setUint16 view 32 blockAlign True) (\<lambda>view.
     and_then (setUint16 view 34 16 True) (\<lambda>view.
     and_then (writeAscii view 36 ''data'') (\<lambda>view.
     and_then (setUint32 view 40 (length pcm * bytesPerSample) True) (\<lambda>view.
     and_then (write_samples view 44 pcm) (\<lambda>view.
     Inr \<lparr>blob_bytes = view, blob_type = ''audio/wav''\<rparr>)))))))))))))))"

section \<open>The WAV encoder of the second recorder component\<close>

text \<open>
  \<^verbatim>\<open>encodeWAV\<close> starts with
  \<^verbatim>\<open>const flat = Float32Array.from(samples.flat());\<close>
  where \<^verbatim>\<open>samples\<close> is an array of \<^verbatim>\<open>Float32Array\<close>s.
  \<^verbatim>\<open>Array.prototype.flat\<close> spreads an element only if it is an array (the IsArray test
  of FlattenIntoArray) and a typed array is not one, so \<^verbatim>\<open>samples.flat()\<close> is a copy of
  \<^verbatim>\<open>samples\<close>: an array whose elements are the chunks themselves.
  \<^verbatim>\<open>Float32Array.from\<close> then makes one element out of each chunk, converting the chunk
  object to a number: through its string, the elements joined by commas. The string of an
  empty chunk is empty and converts to 0, the string of a one-element chunk is that element's
  shortest decimal form and converts back to the element, and a string with a comma converts
  to NaN.
\<close>

definition flat :: "'a list list \<Rightarrow> 'a list list" where
  "flat samples = samples"

definition typed_array_to_number :: "jsnum list \<Rightarrow> jsnum" where
  "typed_array_to_number c = (case c of [] \<Rightarrow> Fin 0 | [x] \<Rightarrow> x | _ # _ # _ \<Rightarrow> NaN)"

definition Float32Array_from :: "jsnum list list \<Rightarrow> jsnum list" where
  "Float32Array_from elements = map typed_array_to_number elements"

text \<open>The local \<^verbatim>\<open>writeString\<close> of \<^verbatim>\<open>encodeWAV\<close>.\<close>

fun writeString :: "byte list \<Rightarrow> nat \<Rightarrow> string \<Rightarrow> js_error + byte list" where
  "writeString view offset [] = Inr view"
| "writeString view offset (c # cs) =
     and_then (setUint8 view offset (of_char c)) (\<lambda>view'. writeString view' (offset + 1) cs)"

text \<open>The sample loop of \<^verbatim>\<open>encodeWAV\<close>, \<open>offset\<close> advancing by two bytes.\<close>

fun write_pcm_samples :: "byte list \<Rightarrow> nat \<Rightarrow> jsnum list \<Rightarrow> js_error + byte list" where
  "write_pcm_samples view offset [] = Inr view"
| "write_pcm_samples view offset (x # xs) =
     and_then (setInt16 view offset (wav_scaled x) True)
       (\<lambda>view'. write_pcm_samples view' (offset + 2) xs)"

definition encodeWAV :: "jsnum list list \<Rightarrow> nat \<Rightarrow> js_error + blob" where
  "encodeWAV samples sampleRate =
     (let flat = Float32Array_from (flat samples);
          buffer = replicate (44 + length flat * 2) (0 :: byte)
      in
      and_then (writeString buffer 0 ''RIFF'') (\<lambda>view.
      and_then (setUint32 view 4 (36 + length flat * 2) True) (\<lambda>view.
      and_then (writeString view 8 ''WAVE'') (\<lambda>view.
      and_then (writeString view 12 ''fmt '') (\<lambda>view.
      and_then (setUint32 view 16 16 True) (\<lambda>view.
      and_then (setUint16 view 20 1 True) (\<lambda>view.
      and_then (setUint16 view 22 1 True) (\<lambda>view.
      and_then (setUint32 view 24 sampleRate True) (\<lambda>view.
      and_then (setUint32 view 28 (sampleRate * 2) True) (\<lambda>view.
      and_then (setUint16 view 32 2 True) (\<lambda>view.
      and_then (setUint16 view 34 16 True) (\<lambda>view.
      and_then (writeString view 36 ''data'') (\<lambda>view.
      and_then (setUint32 view 40 (length flat * 2) True) (\<lambda>view.
      and_then (write_pcm_samples view 44 flat) (\<lambda>view.
      Inr \<lparr>blob_bytes = view, blob_type = ''audio/wav''\<rparr>)))))))))))))))"

section \<open>The PCM WAV layout\<close>

text \<open>
  The canonical 44-byte header of a 16-bit mono PCM WAV file holding \<open>n\<close> samples, written
  from the format's description and not from the encoders: the tags \<^verbatim>\<open>RIFF\<close>,
  \<^verbatim>\<open>WAVE\<close>, \<^verbatim>\<open>fmt \<close> and \<^verbatim>\<open>data\<close>, the RIFF size \<open>36 + 2 * n\<close>, the size 16 of the
  format chunk, the format tag 1 (PCM), one channel, the sample rate, the byte rate, the
  block alignment 2, 16 bits per sample and the data size \<open>2 * n\<close>, every number little-endian
  in a field of two or four bytes.
\<close>

definition pcm_wav_header :: "nat \<Rightarrow> nat \<Rightarrow> byte list" where
  "pcm_wav_header n sampleRate =
     map of_char ''RIFF'' @ le_bytes32 (of_nat (36 + 2 * n)) @
     map of_char ''WAVE'' @
     map of_char ''fmt '' @ le_bytes32 16 @
     le_bytes16 1 @ le_bytes16 1 @
     le_bytes32 (of_nat sampleRate) @ le_bytes32 (of_nat (sampleRate * 2)) @
     le_bytes16 2 @ le_bytes16 16 @
     map of_char ''data'' @ le_bytes32 (of_nat (2 * n))"


definition int16_le :: "byte \<Rightarrow> byte \<Rightarrow> 16 word" where
  "int16_le lo hi = push_bit 8 (ucast hi) OR ucast lo"

text \<open>
  A reference decoder for this layout: the samples are the pairs of bytes after the 44
  bytes of the header. It is not code of the repository; the round trip of the encoder is
  stated against it.
\<close>

fun decode_pairs :: "byte list \<Rightarrow> 16 word list" where
  "decode_pairs (lo # hi # rest) = int16_le lo hi # decode_pairs rest"
| "decode_pairs _ = []"

definition decode_wav_samples :: "byte list \<Rightarrow> 16 word list" where
  "decode_wav_samples bytes = decode_pairs (drop 44 bytes)"

text \<open>
  Two readings of "inverse quantization": undoing the encoder's own two scales, and the
  usual division of every sample by 32768.
\<close>

definition dequantise_asymmetric :: "16 word \<Rightarrow> real" where
  "dequantise_asymmetric q = (if sint q < 0 then real_of_int (sint q) / 32768 else real_of_int (sint q) / 32767)"

definition dequantise_32768 :: "16 word \<Rightarrow> real" where
  "dequantise_32768 q = real_of_int (sint q) / 32768"

text \<open>
  Both encoders write the header with the same thirteen calls, in the same order and at the
  same offsets, and then go on with the buffer; \<open>header_writes\<close> is that sequence, with what
  follows it as the continuation \<open>k\<close>.
\<close>

definition header_writes ::
  "byte list \<Rightarrow> nat \<Rightarrow> nat \<Rightarrow> (byte list \<Rightarrow> js_error + 'a) \<Rightarrow> js_error + 'a" where
  "header_writes buffer n sampleRate k =
     and_then (writeAscii buffer 0 ''RIFF'') (\<lambda>view.
     and_then (setUint32 view 4 (36 + n * 2) True) (\<lambda>view.
     and_then (writeAscii view 8 ''WAVE'') (\<lambda>view.
     and_then (writeAscii view 12 ''fmt '') (\<lambda>view.
     and_then (setUint32 view 16 16 True) (\<lambda>view.
     and_then (setUint16 view 20 1 True) (\<lambda>view.
     and_then (setUint16 view 22 1 True) (\<lambda>view.
     and_then (setUint32 view 24 sampleRate True) (\<lambda>view.
     and_then (setUint32 view 28 (sampleRate * 2) True) (\<lambda>view.
     and_then (setUint16 view 32 2 True) (\<lambda>view.
     and_then (setUint16 view 34 16 True) (\<lambda>view.
     and_then (writeAscii view 36 ''data'') (\<lambda>view.
     and_then (setUint32 view 40 (n * 2) True) k))))))))))))"

section \<open>The MP3 path\<close>

text \<open>
  The decoded audio (\<^verbatim>\<open>AudioBuffer\<close>): its channels and its sample rate.
  \<^verbatim>\<open>getChannelData(i)\<close> throws for a channel the buffer does not have.
\<close>

record audio_buffer =
  channels :: "jsnum list list"
  sampleRate :: nat

definition numberOfChannels :: "audio_buffer \<Rightarrow> nat" where
  "numberOfChannels b = length (channels b)"

definition getChannelData :: "audio_buffer \<Rightarrow> nat \<Rightarrow> js_error + jsnum list" where
  "getChannelData b i =
     (if i < numberOfChannels b then Inr (channels b ! i)
      else Inl (DOMException ''IndexSizeError''))"

text \<open>
  What \<^verbatim>\<open>getMp3Blob\<close> takes from its host: the decoder of the audio context, whether the
  codec library is already there (\<^verbatim>\<open>window.lamejs\<close>) and whether its script loads when it
  is not, and the codec itself, an encoder with a state of its own: the constructor
  \<^verbatim>\<open>Mp3Encoder(channels, sampleRate, kbps)\<close>, \<^verbatim>\<open>encodeBuffer(left, right)\<close> and
  \<^verbatim>\<open>flush()\<close>, each returning the bytes it emits. The codec's operations are taken to
  return; what they compute is left open.
\<close>

record 'enc host =
  decodeAudioData :: "byte list \<Rightarrow> js_error + audio_buffer"
  lamejs_defined :: bool
  script_loads :: bool
  Mp3Encoder :: "nat \<Rightarrow> nat \<Rightarrow> nat \<Rightarrow> 'enc"
  encodeBuffer :: "'enc \<Rightarrow> 16 word list \<Rightarrow> 16 word list \<Rightarrow> byte list \<times> 'enc"
  flush :: "'enc \<Rightarrow> byte list"

text \<open>The calls made to the codec are recorded, in order, next to the result.\<close>

datatype codec_call =
    NewEncoder nat nat nat
  | EncodeBuffer "16 word list" "16 word list"
  | Flush

text \<open>
  Reading a typed array outside its length gives \<^verbatim>\<open>undefined\<close>, which turns into NaN
  in the multiplication; storing outside the length does nothing.
\<close>

definition element :: "jsnum list \<Rightarrow> nat \<Rightarrow> jsnum" where
  "element xs i = (if i < length xs then xs ! i else NaN)"

definition store_int16 :: "16 word list \<Rightarrow> nat \<Rightarrow> jsnum \<Rightarrow> 16 word list" where
  "store_int16 arr i v = (if i < length arr then arr[i := ToInt16 v] else arr)"

text \<open>Lines 385-394: both channels are converted in one loop over the left channel.\<close>

function convert_loop ::
  "jsnum list \<Rightarrow> jsnum list \<Rightarrow> nat \<Rightarrow> 16 word list \<Rightarrow> 16 word list \<Rightarrow>
   16 word list \<times> 16 word list" where
  "convert_loop leftChannel rightChannel i leftInt16 rightInt16 =
     (if i < length leftChannel
      then convert_loop leftChannel rightChannel (i + 1)
             (store_int16 leftInt16 i (mp3_scaled (element leftChannel i)))
             (store_int16 rightInt16 i (mp3_scaled (element rightChannel i)))
      else (leftInt16, rightInt16))"
  by pat_completeness auto
termination
  by (relation "measure (\<lambda>(leftChannel, rightChannel, i, leftInt16, rightInt16). length leftChannel - i)")
    auto

text \<open>Lines 378-394: the right channel is the left one again when the source is mono.\<close>

definition convert_channels :: "audio_buffer \<Rightarrow> js_error + 16 word list \<times> 16 word list" where
  "convert_channels audioBuffer =
     and_then (getChannelData audioBuffer 0) (\<lambda>leftChannel.
     and_then (if numberOfChannels audioBuffer > 1 then getChannelData audioBuffer 1
               else Inr leftChannel) (\<lambda>rightChannel.
     Inr (convert_loop leftChannel rightChannel 0
            (replicate (length leftChannel) 0) (replicate (length rightChannel) 0))))"

text \<open>\<^verbatim>\<open>xs.subarray(begin, end)\<close> for \<open>begin \<le> end\<close>: the end is cut at the length.\<close>

definition subarray :: "'a list \<Rightarrow> nat \<Rightarrow> nat \<Rightarrow> 'a list" where
  "subarray xs begin end = take (end - begin) (drop begin xs)"

definition frame :: nat where
  "frame = 1152"

text \<open>
  Lines 408-414: the loop over the frames. A returned chunk is kept when it is not empty
  (\<^verbatim>\<open>if (out && out.length)\<close>).
\<close>

function encode_frames ::
  "'enc host \<Rightarrow> 'enc \<Rightarrow> 16 word list \<Rightarrow> 16 word list \<Rightarrow> nat \<Rightarrow> byte list list \<Rightarrow>
   codec_call list \<Rightarrow> 'enc \<times> byte list list \<times> codec_call list" where
  "encode_frames host encoder leftInt16 rightInt16 i mp3Chunks calls =
     (if i < length leftInt16
      then
        let l = subarray leftInt16 i (i + frame);
            r = subarray rightInt16 i (i + frame);
            (out, encoder') = encodeBuffer host encoder l r
        in encode_frames host encoder' leftInt16 rightInt16 (i + frame)
             (if out \<noteq> [] then mp3Chunks @ [out] else mp3Chunks)
             (calls @ [EncodeBuffer l r])
      else (encoder, mp3Chunks, calls))"
  by pat_completeness auto
termination
  by (relation "measure (\<lambda>(host, encoder, leftInt16, rightInt16, i, mp3Chunks, calls).
        length leftInt16 - i)")
    (auto simp: frame_def)

declare encode_frames.simps [simp del]

text \<open>
  Lines 405-425: a stereo encoder at 128 kbit/s, the frames, one flush, and the chunks
  joined into one buffer.
\<close>

definition encode_mp3 ::
  "'enc host \<Rightarrow> nat \<Rightarrow> 16 word list \<Rightarrow> 16 word list \<Rightarrow> blob \<times> codec_call list" where
  "encode_mp3 host rate leftInt16 rightInt16 =
     (let encoder = Mp3Encoder host 2 rate 128;
          (encoder', mp3Chunks, calls) =
             encode_frames host encoder leftInt16 rightInt16 0 [] [NewEncoder 2 rate 128];
          end = flush host encoder';
          mp3Chunks' = (if end \<noteq> [] then mp3Chunks @ [end] else mp3Chunks)
      in (\<lparr>blob_bytes = concat mp3Chunks', blob_type = ''audio/mpeg''\<rparr>, calls @ [Flush]))"

text \<open>
  \<^verbatim>\<open>getMp3Blob\<close> (lines 358-426), on the \<^verbatim>\<open>state.audioBlob\<close> of the render it was
  created in: the result, and the calls it made to the codec.
\<close>

definition getMp3Blob :: "'enc host \<Rightarrow> blob option \<Rightarrow> (js_error + blob) \<times> codec_call list" where
  "getMp3Blob host audioBlob =
     (case audioBlob of
        None \<Rightarrow> (Inl (Error ''No audio to process''), [])
      | Some source \<Rightarrow>
          (case decodeAudioData host (blob_bytes source) of
             Inl err \<Rightarrow> (Inl err, [])
           | Inr audioBuffer \<Rightarrow>
               (case convert_channels audioBuffer of
                  Inl err \<Rightarrow> (Inl err, [])
                | Inr (leftInt16, rightInt16) \<Rightarrow>
                    if \<not> lamejs_defined host \<and> \<not> script_loads host
                    then (Inl (Error ''Failed to load lamejs''), [])
                    else
                      let (mp3, calls) =
                            encode_mp3 host (sampleRate audioBuffer) leftInt16 rightInt16
                      in (Inr mp3, calls))))"

text \<open>
  The frames as the specification words them, not taken from the loop: frame number \<open>k\<close>
  holds the samples from \<open>1152 * k\<close> up to \<open>1152 * k + 1152\<close>, and a run of the codec over a
  list of frames returns the chunks in the order of the frames.
\<close>

definition frame_of :: "'a list \<Rightarrow> nat \<Rightarrow> 'a list" where
  "frame_of xs k = take 1152 (drop (1152 * k) xs)"

definition frame_count :: "nat \<Rightarrow> nat" where
  "frame_count n = (n + 1151) div 1152"

fun codec_run ::
  "'enc host \<Rightarrow> 'enc \<Rightarrow> (16 word list \<times> 16 word list) list \<Rightarrow> byte list list \<times> 'enc" where
  "codec_run host encoder [] = ([], encoder)"
| "codec_run host encoder ((l, r) # frames) =
     (let (out, encoder') = encodeBuffer host encoder l r;
          (outs, encoder'') = codec_run host encoder' frames
      in (out # outs, encoder''))"

text \<open>
  A host for the worked examples: it decodes every byte of a non-empty source to one sample
  of a mono buffer at 8000 Hz and fails on the empty source; the library is loaded on
  demand; the encoder counts the frames it was given, emits the count after every second
  frame and emits one byte when it is flushed.
\<close>

definition example_host :: "nat host" where
  "example_host =
     \<lparr>decodeAudioData =
        (\<lambda>bytes. if bytes = [] then Inl (DOMException ''EncodingError'')
                 else Inr \<lparr>channels = [map (\<lambda>b. Fin (real (unat b) / 256)) bytes],
                           sampleRate = 8000\<rparr>),
      lamejs_defined = False,
      script_loads = True,
      Mp3Encoder = (\<lambda>channels rate kbps. 0),
      encodeBuffer = (\<lambda>n l r. (if even n then [] else [of_nat n], n + 1)),
      flush = (\<lambda>n. [255])\<rparr>"

text \<open>The same host with a decoder that rejects every source.\<close>

definition example_undecodable_host :: "nat host" where
  "example_undecodable_host =
     example_host\<lparr>decodeAudioData := \<lambda>bytes. Inl (DOMException ''EncodingError'')\<rparr>"

section \<open>The AudioRecorder component\<close>

text \<open>
  The component is modelled as one record: the five fields of its React state
  (\<^verbatim>\<open>AudioRecorderState\<close>), the refs it keeps between renders, with the state of the host
  object each ref points to, and the number of object URLs created so far
  (\<^verbatim>\<open>URL.createObjectURL\<close> returns a new URL at every call). A handler reads the state of
  the latest render and the refs and returns them updated. The playback state
  (\<^verbatim>\<open>playbackSec\<close>, \<^verbatim>\<open>durationSec\<close>, \<^verbatim>\<open>isPlaying\<close>, the audio element) and the elapsed
  seconds are left out: the handlers below do not read them.
\<close>

datatype RecordingStatus = Idle | Permission_pending | Recording | Stopped | Error_status

text \<open>
  A \<^verbatim>\<open>MediaRecorder\<close>: its \<^verbatim>\<open>state\<close>, and whether its \<^verbatim>\<open>stop\<close> event is queued.
  \<^verbatim>\<open>stop()\<close> follows the MediaStream Recording specification: on an inactive recorder
  it does nothing, otherwise the recorder becomes inactive and the events
  \<^verbatim>\<open>dataavailable\<close> and \<^verbatim>\<open>stop\<close> are queued.
\<close>

datatype recorder_activity = Inactive | Active

record media_recorder =
  activity :: recorder_activity
  stop_queued :: bool

definition media_recorder_stop :: "media_recorder \<Rightarrow> media_recorder" where
  "media_recorder_stop r =
     (if activity r = Inactive then r else r\<lparr>activity := Inactive, stop_queued := True\<rparr>)"

datatype context_state = Suspended | Running | Closed

record audio_context =
  context_state :: context_state
  context_rate :: nat

text \<open>\<^verbatim>\<open>suspend()\<close> and \<^verbatim>\<open>close()\<close>; on a closed context neither changes anything.\<close>

definition suspend :: "audio_context \<Rightarrow> audio_context" where
  "suspend c = (if context_state c = Closed then c else c\<lparr>context_state := Suspended\<rparr>)"

definition resume :: "audio_context \<Rightarrow> audio_context" where
  "resume c = (if context_state c = Closed then c else c\<lparr>context_state := Running\<rparr>)"

definition close_context :: "audio_context \<Rightarrow> audio_context" where
  "close_context c = c\<lparr>context_state := Closed\<rparr>"

text \<open>An audio node is connected or not; a media stream has live tracks or stopped ones.\<close>

datatype audio_node = Connected | Disconnected

datatype media_stream = Live | Ended

datatype capture_mode = Mediarecorder | Webaudio

record audio_recorder =
  status :: RecordingStatus
  audioBlob :: "blob option"
  audioURL :: "nat option"
  errorMessage :: "string option"
  isProcessing :: bool
  mediaRecorderRef :: "media_recorder option"
  audioChunksRef :: "byte list list"
  audioContextRef :: "audio_context option"
  mediaStreamRef :: "media_stream option"
  sourceNodeRef :: "audio_node option"
  processorRef :: "audio_node option"
  pcmBuffersRef :: "jsnum list list"
  captureModeRef :: "capture_mode option"
  object_urls :: nat

text \<open>
  The component as it is mounted (lines 45-62), before the check of the browser (lines
  73-106), which sets the status to error in an insecure context or without a device API.
\<close>

definition mounted :: audio_recorder where
  "mounted =
     \<lparr>status = Idle, audioBlob = None, audioURL = None, errorMessage = None,
      isProcessing = False, mediaRecorderRef = None, audioChunksRef = [],
      audioContextRef = None, mediaStreamRef = None, sourceNodeRef = None,
      processorRef = None, pcmBuffersRef = [], captureModeRef = None, object_urls = 0\<rparr>"

text \<open>
  What the capture takes from its host: the outcome of the device-access request
  \<^verbatim>\<open>getUserMedia({audio: true})\<close>, whether \<^verbatim>\<open>window.MediaRecorder\<close> exists, the
  outcome of each constructor and call that engages the capture, and the outcome of the
  user-agent test of \<^verbatim>\<open>handleRecordingStop\<close>. A constructor or call that throws is given
  with its exception: \<^verbatim>\<open>new MediaRecorder(stream)\<close> and \<^verbatim>\<open>mediaRecorder.start()\<close> on the
  first path; \<^verbatim>\<open>new AudioContext()\<close>, which returns the context otherwise,
  \<^verbatim>\<open>createMediaStreamSource\<close>, \<^verbatim>\<open>createScriptProcessor\<close> and the two \<^verbatim>\<open>connect\<close> calls on
  the second. \<^verbatim>\<open>audioContext.resume()\<close> is awaited in a \<^verbatim>\<open>try\<close> block of its own with an
  empty \<^verbatim>\<open>catch\<close>: when it rejects, the context stays suspended.
\<close>

record capture_host =
  getUserMedia :: "js_error + media_stream"
  has_MediaRecorder :: bool
  new_MediaRecorder :: "js_error option"
  recorder_start :: "js_error option"
  new_AudioContext :: "js_error + audio_context"
  resume_rejects :: bool
  createMediaStreamSource :: "js_error option"
  createScriptProcessor :: "js_error option"
  connect_source :: "js_error option"
  connect_processor :: "js_error option"
  isIOS :: bool

text \<open>
  The props: each callback is there or not. \<^verbatim>\<open>onUpload\<close> and \<^verbatim>\<open>onSave\<close> return or
  throw; \<^verbatim>\<open>onError\<close> returns. The calls of the observers and the device-access requests
  are recorded next to the new state. The name of the uploaded or saved file, which is made
  from the clock, is left out: the file is its blob.
\<close>

record props =
  onUpload :: "(blob \<Rightarrow> js_error option) option"
  onSave :: "(blob \<Rightarrow> js_error option) option"
  onError :: bool

datatype effect =
    Device_request
  | OnError string
  | OnUpload blob
  | OnSave blob

definition notify_error :: "props \<Rightarrow> string \<Rightarrow> effect list" where
  "notify_error p msg = (if onError p then [OnError msg] else [])"

text \<open>
  The \<^verbatim>\<open>catch\<close> block of \<^verbatim>\<open>requestPermissionAndStart\<close> (lines 210-221). It catches
  whatever the \<^verbatim>\<open>try\<close> block throws: the rejection of the device-access request and every
  exception thrown after the access was granted. Every exception of the model is an
  \<^verbatim>\<open>Error\<close>, so the message is the exception's own.
\<close>

definition access_denied ::
  "props \<Rightarrow> js_error \<Rightarrow> audio_recorder \<Rightarrow> audio_recorder \<times> effect list" where
  "access_denied p err w =
     (let msg = ''Microphone access denied: '' @ error_message err
      in (w\<lparr>status := Error_status, errorMessage := Some msg\<rparr>, notify_error p msg))"

text \<open>
  Lines 170-208, the two ways of engaging the capture on the granted stream, statement by
  statement: the refs written before a statement throws stay written. The result is the
  state at the end of the block or at the throwing statement, with the exception thrown.
\<close>

definition start_MediaRecorder :: "capture_host \<Rightarrow> audio_recorder \<Rightarrow> audio_recorder \<times> js_error option" where
  "start_MediaRecorder host w =
     (case new_MediaRecorder host of
        Some err \<Rightarrow> (w, Some err)
      | None \<Rightarrow>
          (let w = w\<lparr>mediaRecorderRef := Some \<lparr>activity = Inactive, stop_queued = False\<rparr>,
                     captureModeRef := Some Mediarecorder,
                     audioChunksRef := []\<rparr>
           in case recorder_start host of
                Some err \<Rightarrow> (w, Some err)
              | None \<Rightarrow>
                  (w\<lparr>mediaRecorderRef := Some \<lparr>activity = Active, stop_queued = False\<rparr>\<rparr>, None)))"

definition start_WebAudio :: "capture_host \<Rightarrow> audio_recorder \<Rightarrow> audio_recorder \<times> js_error option" where
  "start_WebAudio host w =
     (let w = w\<lparr>captureModeRef := Some Webaudio\<rparr>
      in case new_AudioContext host of
           Inl err \<Rightarrow> (w, Some err)
         | Inr audioContext \<Rightarrow>
             (let w = w\<lparr>audioContextRef :=
                         Some (if context_state audioContext = Suspended \<and> \<not> resume_rejects host
                               then resume audioContext else audioContext)\<rparr>
              in case createMediaStreamSource host of
                   Some err \<Rightarrow> (w, Some err)
                 | None \<Rightarrow>
                     (let w = w\<lparr>sourceNodeRef := Some Disconnected\<rparr>
                      in case createScriptProcessor host of
                           Some err \<Rightarrow> (w, Some err)
                         | None \<Rightarrow>
                             (let w = w\<lparr>processorRef := Some Disconnected, pcmBuffersRef := []\<rparr>
                              in case connect_source host of
                                   Some err \<Rightarrow> (w, Some err)
                                 | None \<Rightarrow>
                                     (let w = w\<lparr>sourceNodeRef := Some Connected\<rparr>
                                      in case connect_processor host of
                                           Some err \<Rightarrow> (w, Some err)
                                         | None \<Rightarrow>
                                             (w\<lparr>processorRef := Some Connected\<rparr>, None))))))"

text \<open>
  \<^verbatim>\<open>requestPermissionAndStart\<close> (lines 161-222). There is no test of the status: the first
  statement sets it to \<^verbatim>\<open>permission_pending\<close>, the second requests the device. The status
  becomes \<^verbatim>\<open>recording\<close> only at the end of the \<^verbatim>\<open>try\<close> block.
\<close>

definition requestPermissionAndStart ::
  "capture_host \<Rightarrow> props \<Rightarrow> audio_recorder \<Rightarrow> audio_recorder \<times> effect list" where
  "requestPermissionAndStart host p w =
     (let w = w\<lparr>status := Permission_pending\<rparr>
      in case getUserMedia host of
           Inl err \<Rightarrow>
             (let (w, effects) = access_denied p err w in (w, Device_request # effects))
         | Inr stream \<Rightarrow>
             (let w = w\<lparr>mediaStreamRef := Some stream\<rparr>;
                  (w, thrown) = (if has_MediaRecorder host then start_MediaRecorder host w
                                 else start_WebAudio host w)
              in case thrown of
                   Some err \<Rightarrow>
                     (let (w, effects) = access_denied p err w in (w, Device_request # effects))
                 | None \<Rightarrow> (w\<lparr>status := Recording\<rparr>, [Device_request])))"

text \<open>
  The two callbacks installed by \<^verbatim>\<open>requestPermissionAndStart\<close>:
  \<^verbatim>\<open>ondataavailable\<close> (lines 177-181) and \<^verbatim>\<open>onaudioprocess\<close> (lines 202-205).
\<close>

definition ondataavailable :: "byte list \<Rightarrow> audio_recorder \<Rightarrow> audio_recorder" where
  "ondataavailable data w =
     (if length data > 0 then w\<lparr>audioChunksRef := audioChunksRef w @ [data]\<rparr> else w)"

definition onaudioprocess :: "jsnum list \<Rightarrow> audio_recorder \<Rightarrow> audio_recorder" where
  "onaudioprocess input w = w\<lparr>pcmBuffersRef := pcmBuffersRef w @ [input]\<rparr>"

text \<open>
  \<^verbatim>\<open>handleRecordingStop\<close> (lines 225-254). \<^verbatim>\<open>new Blob(chunks)\<close> joins the chunks;
  \<^verbatim>\<open>sampleRate || 44100\<close> replaces a missing context and a rate of 0 by 44100. An
  exception of the WAV encoder would leave the handler before its \<^verbatim>\<open>setState\<close>.
\<close>

definition createObjectURL :: "audio_recorder \<Rightarrow> nat \<times> audio_recorder" where
  "createObjectURL w = (object_urls w, w\<lparr>object_urls := object_urls w + 1\<rparr>)"

definition handleRecordingStop :: "capture_host \<Rightarrow> audio_recorder \<Rightarrow> audio_recorder" where
  "handleRecordingStop host w =
     (if captureModeRef w = Some Mediarecorder
      then
        let blobType = (if isIOS host then ''audio/mp4'' else ''audio/webm'');
            recorded = \<lparr>blob_bytes = concat (audioChunksRef w), blob_type = blobType\<rparr>;
            (url, w) = createObjectURL w
        in w\<lparr>audioBlob := Some recorded, audioURL := Some url, status := Stopped\<rparr>
      else
        let rate = (case audioContextRef w of
                      None \<Rightarrow> 44100
                    | Some c \<Rightarrow> if context_rate c = 0 then 44100 else context_rate c)
        in case buildWavFromFloat32 (pcmBuffersRef w) rate of
             Inl err \<Rightarrow> w
           | Inr wavBlob \<Rightarrow>
               let (wavURL, w) = createObjectURL w
               in w\<lparr>audioBlob := Some wavBlob, audioURL := Some wavURL, status := Stopped\<rparr>)"

text \<open>
  The \<^verbatim>\<open>stop\<close> event of the recorder, with the \<^verbatim>\<open>dataavailable\<close> event that the host
  fires before it: \<^verbatim>\<open>onstop\<close> (lines 182-184) calls \<^verbatim>\<open>handleRecordingStop\<close>.
\<close>

definition recorder_stopped :: "capture_host \<Rightarrow> byte list \<Rightarrow> audio_recorder \<Rightarrow> audio_recorder" where
  "recorder_stopped host data w =
     (case mediaRecorderRef w of
        None \<Rightarrow> w
      | Some r \<Rightarrow>
          if stop_queued r
          then handleRecordingStop host
                 (ondataavailable data (w\<lparr>mediaRecorderRef := Some (r\<lparr>stop_queued := False\<rparr>)\<rparr>))
          else w)"

text \<open>
  \<^verbatim>\<open>stopRecording\<close> (lines 343-355). The three calls in the \<^verbatim>\<open>try\<close> block do not throw
  here.
\<close>

definition stopRecording :: "capture_host \<Rightarrow> audio_recorder \<Rightarrow> audio_recorder" where
  "stopRecording host w =
     (if status w \<noteq> Recording then w
      else if captureModeRef w = Some Mediarecorder
      then (case mediaRecorderRef w of
              None \<Rightarrow> w
            | Some r \<Rightarrow> w\<lparr>mediaRecorderRef := Some (media_recorder_stop r)\<rparr>)
      else
        handleRecordingStop host
          (w\<lparr>processorRef := map_option (\<lambda>n. Disconnected) (processorRef w),
             sourceNodeRef := map_option (\<lambda>n. Disconnected) (sourceNodeRef w),
             audioContextRef := map_option suspend (audioContextRef w)\<rparr>))"

text \<open>
  \<^verbatim>\<open>uploadMp3\<close> (lines 429-451) and \<^verbatim>\<open>handleSave\<close> (lines 454-473). Both catch whatever
  the encoding or the callback throws, and the \<^verbatim>\<open>catch\<close> block sets the status to
  \<^verbatim>\<open>error\<close>.
\<close>

definition encode_failed :: "props \<Rightarrow> js_error \<Rightarrow> audio_recorder \<Rightarrow> audio_recorder \<times> effect list" where
  "encode_failed p e w =
     (let msg = error_message e
      in (w\<lparr>isProcessing := False, status := Error_status, errorMessage := Some msg\<rparr>,
          notify_error p msg))"

definition uploadMp3 ::
  "'enc host \<Rightarrow> props \<Rightarrow> audio_recorder \<Rightarrow> audio_recorder \<times> effect list" where
  "uploadMp3 host p w =
     (case (audioBlob w, onUpload p) of
        (Some source, Some upload) \<Rightarrow>
          (let w' = w\<lparr>isProcessing := True\<rparr>
           in case fst (getMp3Blob host (audioBlob w)) of
                Inl e \<Rightarrow> encode_failed p e w'
              | Inr mp3 \<Rightarrow>
                  (case upload mp3 of
                     Some e \<Rightarrow> (let (w'', effects) = encode_failed p e w'
                               in (w'', OnUpload mp3 # effects))
                   | None \<Rightarrow> (w'\<lparr>isProcessing := False\<rparr>, [OnUpload mp3])))
      | _ \<Rightarrow> (w, []))"

definition handleSave ::
  "'enc host \<Rightarrow> props \<Rightarrow> audio_recorder \<Rightarrow> audio_recorder \<times> effect list" where
  "handleSave host p w =
     (case (audioBlob w, onSave p) of
        (Some source, Some save) \<Rightarrow>
          (let w' = w\<lparr>isProcessing := True\<rparr>
           in case fst (getMp3Blob host (audioBlob w)) of
                Inl e \<Rightarrow> encode_failed p e w'
              | Inr mp3 \<Rightarrow>
                  (case save mp3 of
                     Some e \<Rightarrow> (let (w'', effects) = encode_failed p e w'
                               in (w'', OnSave mp3 # effects))
                   | None \<Rightarrow> (w'\<lparr>isProcessing := False\<rparr>, [OnSave mp3])))
      | _ \<Rightarrow> (w, []))"







text \<open>
  A capture host and props for the worked examples: access is granted and nothing throws.
\<close>

definition example_capture :: capture_host where
  "example_capture =
     \<lparr>getUserMedia = Inr Live, has_MediaRecorder = True,
      new_MediaRecorder = None, recorder_start = None,
      new_AudioContext = Inr \<lparr>context_state = Running, context_rate = 48000\<rparr>,
      resume_rejects = False, createMediaStreamSource = None, createScriptProcessor = None,
      connect_source = None, connect_processor = None, isIOS = False\<rparr>"

definition example_props :: props where
  "example_props = \<lparr>onUpload = Some (\<lambda>file. None), onSave = Some (\<lambda>file. None), onError = True\<rparr>"

text \<open>
  A finished recording for the worked examples: started with a \<^verbatim>\<open>MediaRecorder\<close>, two
  bytes of data delivered, stopped, and the last byte delivered with the \<^verbatim>\<open>stop\<close> event.
\<close>

definition example_stopped :: audio_recorder where
  "example_stopped =
     recorder_stopped example_capture [3]
       (stopRecording example_capture
          (ondataavailable [1, 2]
             (fst (requestPermissionAndStart example_capture example_props mounted))))"

section \<open>The second recorder component\<close>

text \<open>
  \<^verbatim>\<open>VoiceMessageRecorder\<close>, the component around \<^verbatim>\<open>encodeWAV\<close>: its React state, its
  refs with the state of the host object each ref points to, and the number of object URLs
  created. An object URL is modelled with the blob it stands for. The fields carry the
  prefix \<open>vm\<close>; the state \<^verbatim>\<open>uploadSrc\<close> of the file input is left out.
\<close>

record voice_recorder =
  vm_recording :: bool
  vm_audioUrl :: "(nat \<times> blob) option"
  vm_error :: "string option"
  vm_pulse :: bool
  vm_isWavFallback :: bool
  vm_audioMime :: "string option"
  vm_mediaRecorderRef :: "media_recorder option"
  vm_audioChunksRef :: "byte list list"
  vm_audioContextRef :: "audio_context option"
  vm_inputRef :: "audio_node option"
  vm_procRef :: "audio_node option"
  vm_bufferRef :: "jsnum list list"
  vm_wavStreamRef :: "media_stream option"
  vm_wavSampleRateRef :: nat
  vm_object_urls :: nat

text \<open>
  \<^verbatim>\<open>stopRecording\<close> (lines 158-186). It has no test of \<^verbatim>\<open>recording\<close>. In the fallback
  branch the nodes are disconnected, the context is closed and the tracks are stopped before
  \<^verbatim>\<open>encodeWAV\<close> runs, and the four refs are cleared after it.
\<close>

definition wav_engaged :: "voice_recorder \<Rightarrow> bool" where
  "wav_engaged v \<longleftrightarrow>
     vm_audioContextRef v \<noteq> None \<and> vm_procRef v \<noteq> None \<and> vm_inputRef v \<noteq> None \<and>
     vm_wavStreamRef v \<noteq> None"

definition vm_createObjectURL :: "blob \<Rightarrow> voice_recorder \<Rightarrow> (nat \<times> blob) \<times> voice_recorder" where
  "vm_createObjectURL b v = ((vm_object_urls v, b), v\<lparr>vm_object_urls := vm_object_urls v + 1\<rparr>)"

definition vm_stopRecording :: "voice_recorder \<Rightarrow> voice_recorder" where
  "vm_stopRecording v =
     (let v = v\<lparr>vm_recording := False, vm_pulse := False\<rparr>
      in if vm_isWavFallback v \<and> wav_engaged v
         then
           (let v = v\<lparr>vm_procRef := Some Disconnected, vm_inputRef := Some Disconnected,
                      vm_audioContextRef := map_option close_context (vm_audioContextRef v),
                      vm_wavStreamRef := Some Ended\<rparr>
            in case encodeWAV (vm_bufferRef v) (vm_wavSampleRateRef v) of
                 Inl err \<Rightarrow> v
               | Inr wav \<Rightarrow>
                   (let (url, v) = vm_createObjectURL wav v
                    in v\<lparr>vm_audioUrl := Some url, vm_audioMime := Some ''audio/wav'',
                         vm_procRef := None, vm_inputRef := None, vm_audioContextRef := None,
                         vm_wavStreamRef := None, vm_bufferRef := []\<rparr>))
         else
           (case vm_mediaRecorderRef v of
              None \<Rightarrow> v
            | Some r \<Rightarrow> v\<lparr>vm_mediaRecorderRef := Some (media_recorder_stop r)\<rparr>))"

text \<open>
  The one place that refers to \<^verbatim>\<open>stopRecording\<close> is the \<^verbatim>\<open>onClick\<close> of the microphone
  button (line 235), \<^verbatim>\<open>recording ? stopRecording : startRecording\<close>: the handler the button
  has in a render.
\<close>

datatype mic_handler = StartRecording | StopRecording

definition mic_onClick :: "voice_recorder \<Rightarrow> mic_handler" where
  "mic_onClick v = (if vm_recording v then StopRecording else StartRecording)"

text \<open>The recorder in the ref, if there is one, is not recording.\<close>

definition recorder_idle :: "voice_recorder \<Rightarrow> bool" where
  "recorder_idle v \<longleftrightarrow>
     (case vm_mediaRecorderRef v of None \<Rightarrow> True | Some r \<Rightarrow> activity r = Inactive)"

section \<open>The two sample conversions compared\<close>

lemma sint_of_int_16:
  "- 32768 \<le> k \<Longrightarrow> k \<le> 32767 \<Longrightarrow> sint (word_of_int k :: 16 word) = k"
  by (simp add: signed_of_int signed_take_bit_int_eq_self)

lemma mp3_sample_Fin:
  "mp3_sample (Fin s) = word_of_int (trunc (max (- 32768) (min 32767 (s * 32768))))"
  by (auto simp: mp3_sample_def mp3_scaled_def Math_max_def Math_min_def max_def min_def)

lemma wav_sample_Fin:
  "wav_sample (Fin s) =
     (let c = max (- 1) (min 1 s)
      in word_of_int (trunc (if c < 0 then c * 32768 else c * 32767)))"
  by (auto simp: wav_sample_def wav_scaled_def Math_max_def Math_min_def max_def min_def Let_def)

lemma sint_mp3_sample_Fin:
  "sint (mp3_sample (Fin s)) = trunc (max (- 32768) (min 32767 (s * 32768)))"
  unfolding mp3_sample_Fin
  by (rule sint_of_int_16) (auto simp: trunc_def max_def min_def; linarith)+

lemma sint_wav_sample_Fin:
  "sint (wav_sample (Fin s)) =
     (let c = max (- 1) (min 1 s) in trunc (if c < 0 then c * 32768 else c * 32767))"
  unfolding wav_sample_Fin Let_def
  by (rule sint_of_int_16) (auto simp: trunc_def max_def min_def; linarith)+

lemma mp3_wav_sample_not_finite:
  "mp3_sample NaN = wav_sample NaN"
  "mp3_sample PosInf = wav_sample PosInf"
  "mp3_sample NegInf = wav_sample NegInf"
  by (auto simp: mp3_sample_def mp3_scaled_def wav_sample_def wav_scaled_def Let_def Math_max_def Math_min_def trunc_def)

lemma mp3_wav_sample_outside:
  "s \<le> 0 \<or> 1 \<le> s \<Longrightarrow> mp3_sample (Fin s) = wav_sample (Fin s)"
  by (auto simp: mp3_sample_Fin wav_sample_Fin Let_def max_def min_def trunc_def)

lemma mp3_wav_sample_inside:
  "0 < s \<Longrightarrow> s < 1 \<Longrightarrow>
     sint (mp3_sample (Fin s)) = sint (wav_sample (Fin s)) \<or>
     sint (mp3_sample (Fin s)) = sint (wav_sample (Fin s)) + 1"
  unfolding sint_mp3_sample_Fin sint_wav_sample_Fin Let_def
  by (simp add: max_def min_def trunc_def) linarith

text \<open>
  Claim C5, as stated: for every sample the MP3 path's conversion to 16 bits gives the same
  integer as the WAV encoder's rule (clamp to [-1, 1], then scale by 32768 when negative and
  by 32767 otherwise). It fails at the sample 0.5: the MP3 path scales every sample by 32768
  and clamps afterwards, which gives 16384, where the WAV rule gives 16383.
\<close>

theorem mp3_sample_differs_from_wav_sample_at_half:
  "sint (mp3_sample (Fin (1 / 2))) = 16384 \<and> sint (wav_sample (Fin (1 / 2))) = 16383"
  by (simp add: mp3_sample_def mp3_scaled_def wav_sample_def wav_scaled_def Math_max_def Math_min_def trunc_def)

text \<open>
  Claim C5, amended: the MP3 path's conversion agrees with the WAV encoder's rule on every
  sample that is not strictly between 0 and 1 (negative samples, zero, samples of 1 and above,
  the infinities and NaN); on a sample strictly between 0 and 1 its integer is the WAV
  encoder's integer or that integer plus one.
\<close>

theorem mp3_sample_wav_sample:
  "(\<not> (js_lt (Fin 0) x \<and> js_lt x (Fin 1)) \<longrightarrow> mp3_sample x = wav_sample x) \<and>
   (sint (mp3_sample x) = sint (wav_sample x) \<or>
    sint (mp3_sample x) = sint (wav_sample x) + 1)"
proof (cases x)
  case (Fin s)
  show ?thesis
  proof (cases "0 < s \<and> s < 1")
    case True
    with Fin mp3_wav_sample_inside [of s] show ?thesis by simp
  next
    case False
    then have "s \<le> 0 \<or> 1 \<le> s" by linarith
    with Fin mp3_wav_sample_outside [of s] show ?thesis by simp
  qed
qed (simp_all add: mp3_wav_sample_not_finite)

theorem mp3_sample_wav_sample_witness:
  "\<not> (js_lt (Fin 0) (Fin (- 1 / 2)) \<and> js_lt (Fin (- 1 / 2)) (Fin 1)) \<and>
   mp3_sample (Fin (- 1 / 2)) = wav_sample (Fin (- 1 / 2))"
  using mp3_sample_wav_sample [of "Fin (- 1 / 2)"] by simp

section \<open>What the two WAV encoders return\<close>

lemma and_then_Inr [simp]: "and_then (Inr v) f = f v"
  and and_then_Inl [simp]: "and_then (Inl e) f = Inl e"
  by (simp_all add: and_then_def)

lemma overwrite_at_append:
  "length pre = off \<Longrightarrow> length src \<le> length rest \<Longrightarrow>
   overwrite_at (pre @ rest) off src = Inr (pre @ src @ drop (length src) rest)"
  by (simp add: overwrite_at_def)

lemma total_length_eq: "total_length chunks = length (concat chunks)"
proof -
  have "foldl (\<lambda>total c. total + length c) k chunks = k + length (concat chunks)" for k
    by (induction chunks arbitrary: k) simp_all
  then show ?thesis by (simp add: total_length_def)
qed

lemma copy_chunks_append:
  "length pre = off \<Longrightarrow> length rest = length (concat cs) \<Longrightarrow>
   copy_chunks (pre @ rest) off cs = Inr (pre @ concat cs)"
proof (induction cs arbitrary: pre rest off)
  case Nil
  then show ?case by simp
next
  case (Cons c cs)
  have "typed_array_set (pre @ rest) c off = Inr (pre @ c @ drop (length c) rest)"
    unfolding typed_array_set_def using Cons.prems by (intro overwrite_at_append) simp_all
  moreover have "copy_chunks ((pre @ c) @ drop (length c) rest) (off + length c) cs = Inr ((pre @ c) @ concat cs)"
    using Cons.prems by (intro Cons.IH) simp_all
  ultimately show ?case by simp
qed

lemma copy_chunks_new:
  "copy_chunks (replicate (total_length chunks) z) 0 chunks = Inr (concat chunks)"
  using copy_chunks_append [of "[]" 0 "replicate (total_length chunks) z" chunks]
  by (simp add: total_length_eq)

lemma length_le_bytes [simp]: "length (le_bytes16 w) = 2" "length (le_bytes32 v) = 4"
  by (simp_all add: le_bytes16_def le_bytes32_def)

lemma write_samples_append:
  "length pre = idx \<Longrightarrow> length rest = 2 * length xs \<Longrightarrow>
   write_samples (pre @ rest) idx xs = Inr (pre @ concat (map (\<lambda>x. le_bytes16 (wav_sample x)) xs))"
proof (induction xs arbitrary: pre rest idx)
  case Nil
  then show ?case by simp
next
  case (Cons x xs)
  have "setInt16 (pre @ rest) idx (wav_scaled x) True = Inr (pre @ le_bytes16 (wav_sample x) @ drop 2 rest)"
    unfolding setInt16_def wav_sample_def using Cons.prems
    by (simp add: overwrite_at_append)
  moreover have "write_samples ((pre @ le_bytes16 (wav_sample x)) @ drop 2 rest) (idx + 2) xs
      = Inr ((pre @ le_bytes16 (wav_sample x)) @ concat (map (\<lambda>x. le_bytes16 (wav_sample x)) xs))"
    using Cons.prems by (intro Cons.IH) simp_all
  ultimately show ?case by simp
qed

lemma writeString_eq: "writeString view off s = writeAscii view off s"
  by (induction s arbitrary: view off) simp_all

lemma write_pcm_samples_eq: "write_pcm_samples view off xs = write_samples view off xs"
  by (induction xs arbitrary: view off) simp_all

lemma writeAscii_append:
  "length pre = off \<Longrightarrow> length s \<le> length rest \<Longrightarrow>
   writeAscii (pre @ rest) off s = Inr (pre @ map of_char s @ drop (length s) rest)"
proof (induction s arbitrary: pre rest off)
  case Nil
  then show ?case by simp
next
  case (Cons c s)
  have "setUint8 (pre @ rest) off (of_char c) = Inr (pre @ [of_char c] @ drop 1 rest)"
    unfolding setUint8_def using Cons.prems by (simp add: overwrite_at_append of_nat_of_char)
  moreover have "writeAscii ((pre @ [of_char c]) @ drop 1 rest) (off + 1) s = Inr ((pre @ [of_char c]) @ map of_char s @ drop (length s) (drop 1 rest))"
    using Cons.prems by (intro Cons.IH) simp_all
  ultimately show ?case by simp
qed


lemma setUint32_append:
  "length pre = off \<Longrightarrow> 4 \<le> length rest \<Longrightarrow>
   setUint32 (pre @ rest) off v True = Inr (pre @ le_bytes32 (of_nat v) @ drop 4 rest)"
  by (simp add: setUint32_def overwrite_at_append)

lemma setUint16_append:
  "length pre = off \<Longrightarrow> 2 \<le> length rest \<Longrightarrow>
   setUint16 (pre @ rest) off v True = Inr (pre @ le_bytes16 (of_nat v) @ drop 2 rest)"
  by (simp add: setUint16_def overwrite_at_append)

lemma header_writes_new:
  "header_writes (replicate (44 + m) 0) n rate k = k (pcm_wav_header n rate @ replicate m 0)"
proof -
  let ?z = "\<lambda>j. replicate (j + m) (0 :: byte)"
  let ?h1 = "map of_char ''RIFF'' :: byte list"
  let ?h2 = "?h1 @ le_bytes32 (of_nat (36 + n * 2))"
  let ?h3 = "?h2 @ map of_char ''WAVE''"
  let ?h4 = "?h3 @ map of_char ''fmt ''"
  let ?h5 = "?h4 @ le_bytes32 (of_nat 16)"
  let ?h6 = "?h5 @ le_bytes16 (of_nat 1)"
  let ?h7 = "?h6 @ le_bytes16 (of_nat 1)"
  let ?h8 = "?h7 @ le_bytes32 (of_nat rate)"
  let ?h9 = "?h8 @ le_bytes32 (of_nat (rate * 2))"
  let ?h10 = "?h9 @ le_bytes16 (of_nat 2)"
  let ?h11 = "?h10 @ le_bytes16 (of_nat 16)"
  let ?h12 = "?h11 @ map of_char ''data''"
  let ?h13 = "?h12 @ le_bytes32 (of_nat (n * 2))"
  have s1: "writeAscii (replicate (44 + m) 0) 0 ''RIFF'' = Inr (?h1 @ ?z 40)"
    using writeAscii_append [of "[]" 0 "''RIFF''" "replicate (44 + m) 0"] by simp
  have s2: "setUint32 (?h1 @ ?z 40) 4 v True = Inr (?h1 @ le_bytes32 (of_nat v) @ ?z 36)" for v
    using setUint32_append [of ?h1 4 "?z 40" v] by simp
  have s3: "writeAscii (?h2 @ ?z 36) 8 ''WAVE'' = Inr (?h3 @ ?z 32)"
    using writeAscii_append [of ?h2 8 "''WAVE''" "?z 36"] by simp
  have s4: "writeAscii (?h3 @ ?z 32) 12 ''fmt '' = Inr (?h4 @ ?z 28)"
    using writeAscii_append [of ?h3 12 "''fmt ''" "?z 32"] by simp
  have s5: "setUint32 (?h4 @ ?z 28) 16 v True = Inr (?h4 @ le_bytes32 (of_nat v) @ ?z 24)" for v
    using setUint32_append [of ?h4 16 "?z 28" v] by simp
  have s6: "setUint16 (?h5 @ ?z 24) 20 v True = Inr (?h5 @ le_bytes16 (of_nat v) @ ?z 22)" for v
    using setUint16_append [of ?h5 20 "?z 24" v] by simp
  have s7: "setUint16 (?h6 @ ?z 22) 22 v True = Inr (?h6 @ le_bytes16 (of_nat v) @ ?z 20)" for v
    using setUint16_append [of ?h6 22 "?z 22" v] by simp
  have s8: "setUint32 (?h7 @ ?z 20) 24 v True = Inr (?h7 @ le_bytes32 (of_nat v) @ ?z 16)" for v
    using setUint32_append [of ?h7 24 "?z 20" v] by simp
  have s9: "setUint32 (?h8 @ ?z 16) 28 v True = Inr (?h8 @ le_bytes32 (of_nat v) @ ?z 12)" for v
    using setUint32_append [of ?h8 28 "?z 16" v] by simp
  have s10: "setUint16 (?h9 @ ?z 12) 32 v True = Inr (?h9 @ le_bytes16 (of_nat v) @ ?z 10)" for v
    using setUint16_append [of ?h9 32 "?z 12" v] by simp
  have s11: "setUint16 (?h10 @ ?z 10) 34 v True = Inr (?h10 @ le_bytes16 (of_nat v) @ ?z 8)" for v
    using setUint16_append [of ?h10 34 "?z 10" v] by simp
  have s12: "writeAscii (?h11 @ ?z 8) 36 ''data'' = Inr (?h12 @ ?z 4)"
    using writeAscii_append [of ?h11 36 "''data''" "?z 8"] by simp
  have s13: "setUint32 (?h12 @ ?z 4) 40 v True = Inr (?h12 @ le_bytes32 (of_nat v) @ ?z 0)" for v
    using setUint32_append [of ?h12 40 "?z 4" v] by simp
  have all: "header_writes (replicate (44 + m) 0) n rate k = k (?h13 @ replicate m 0)"
    unfolding header_writes_def
    using s1 s2 s3 s4 s5 s6 s7 s8 s9 s10 s11 s12 s13 by simp
  have layout: "?h13 = pcm_wav_header n rate"
    by (simp add: pcm_wav_header_def mult.commute)
  show ?thesis using all unfolding layout .
qed


lemma buildWavFromFloat32_eq:
  "buildWavFromFloat32 chunks rate =
     Inr \<lparr>blob_bytes = pcm_wav_header (length (concat chunks)) rate @
                        concat (map (\<lambda>x. le_bytes16 (wav_sample x)) (concat chunks)),
          blob_type = ''audio/wav''\<rparr>"
proof -
  let ?pcm = "concat chunks"
  let ?n = "length ?pcm"
  have "buildWavFromFloat32 chunks rate =
      header_writes (replicate (44 + ?n * 2) 0) ?n rate
        (\<lambda>view. and_then (write_samples view 44 ?pcm)
           (\<lambda>view. Inr \<lparr>blob_bytes = view, blob_type = ''audio/wav''\<rparr>))"
    by (simp add: buildWavFromFloat32_def header_writes_def copy_chunks_new Let_def)
  also have "\<dots> = and_then (write_samples (pcm_wav_header ?n rate @ replicate (?n * 2) 0) 44 ?pcm)
           (\<lambda>view. Inr \<lparr>blob_bytes = view, blob_type = ''audio/wav''\<rparr>)"
    by (rule header_writes_new)
  also have "write_samples (pcm_wav_header ?n rate @ replicate (?n * 2) 0) 44 ?pcm =
      Inr (pcm_wav_header ?n rate @ concat (map (\<lambda>x. le_bytes16 (wav_sample x)) ?pcm))"
    by (rule write_samples_append) (simp_all add: pcm_wav_header_def)
  finally show ?thesis by simp
qed

lemma encodeWAV_eq:
  "encodeWAV samples rate =
     Inr \<lparr>blob_bytes = pcm_wav_header (length samples) rate @
                        concat (map (\<lambda>c. le_bytes16 (wav_sample (typed_array_to_number c))) samples),
          blob_type = ''audio/wav''\<rparr>"
proof -
  let ?flat = "map typed_array_to_number samples"
  let ?n = "length samples"
  have "encodeWAV samples rate =
      header_writes (replicate (44 + ?n * 2) 0) ?n rate
        (\<lambda>view. and_then (write_samples view 44 ?flat)
           (\<lambda>view. Inr \<lparr>blob_bytes = view, blob_type = ''audio/wav''\<rparr>))"
    by (simp add: encodeWAV_def header_writes_def Float32Array_from_def flat_def Let_def
        writeString_eq write_pcm_samples_eq)
  also have "\<dots> = and_then (write_samples (pcm_wav_header ?n rate @ replicate (?n * 2) 0) 44 ?flat)
           (\<lambda>view. Inr \<lparr>blob_bytes = view, blob_type = ''audio/wav''\<rparr>)"
    by (rule header_writes_new)
  also have "write_samples (pcm_wav_header ?n rate @ replicate (?n * 2) 0) 44 ?flat =
      Inr (pcm_wav_header ?n rate @ concat (map (\<lambda>x. le_bytes16 (wav_sample x)) ?flat))"
    by (rule write_samples_append) (simp_all add: pcm_wav_header_def)
  finally show ?thesis by (simp add: comp_def)
qed

lemma length_pcm_wav_header [simp]: "length (pcm_wav_header n rate) = 44"
  by (simp add: pcm_wav_header_def)

lemma length_concat_le_bytes16: "length (concat (map (\<lambda>x. le_bytes16 (f x)) xs)) = 2 * length xs"
  by (induction xs) simp_all

lemma int16_le_le_bytes16: "int16_le (ucast w) (ucast (drop_bit 8 w)) = (w :: 16 word)"
  unfolding int16_le_def
  by (rule bit_word_eqI) (auto simp: bit_simps)

lemma decode_pairs_le_bytes16:
  "decode_pairs (concat (map (\<lambda>x. le_bytes16 (f x)) xs)) = map f xs"
  by (induction xs) (simp_all add: le_bytes16_def int16_le_le_bytes16)


lemmas wav_eval = pcm_wav_header_def le_bytes32_def le_bytes16_def typed_array_to_number_def
  wav_sample_def wav_scaled_def Math_max_def Math_min_def trunc_def

text \<open>
  What \<^verbatim>\<open>buildWavFromFloat32\<close> returns has the length, the header and the samples of the
  layout, for all chunks and every sample rate. The size fields are 32 bits wide, so they
  hold the sizes modulo \<open>2^32\<close>.
\<close>

lemma buildWavFromFloat32_length:
  "\<exists>b. buildWavFromFloat32 chunks rate = Inr b \<and>
       length (blob_bytes b) = 44 + 2 * length (concat chunks) \<and>
       take 44 (blob_bytes b) = pcm_wav_header (length (concat chunks)) rate \<and>
       drop 44 (blob_bytes b) = concat (map (\<lambda>x. le_bytes16 (wav_sample x)) (concat chunks))"
  by (simp add: buildWavFromFloat32_eq length_concat_le_bytes16)


lemma pcm_wav_header_channels_bits:
  "take 2 (drop 22 (pcm_wav_header n r)) = le_bytes16 1"
  "take 2 (drop 34 (pcm_wav_header n r)) = le_bytes16 16"
  by (simp_all add: pcm_wav_header_def)



lemma decode_wav_samples_buildWavFromFloat32:
  "buildWavFromFloat32 chunks rate = Inr b \<Longrightarrow>
   decode_wav_samples (blob_bytes b) = map wav_sample (concat chunks)"
  by (auto simp: buildWavFromFloat32_eq decode_wav_samples_def decode_pairs_le_bytes16)

text \<open>
  Claim C1: for all chunks and every sample rate the WAV encoder returns \<open>44 + 2 * N\<close>
  bytes, \<open>N\<close> the total number of samples: the header with the sizes \<open>36 + 2 * N\<close> and
  \<open>2 * N\<close>, then each sample clamped and scaled.
  \<^verbatim>\<open>encodeWAV\<close> does not: its \<^verbatim>\<open>samples.flat()\<close> leaves the typed arrays whole, so it
  writes one sample per chunk. For the single chunk of the two samples 0.5 and 0.5 it returns
  46 bytes, with the sizes 38 and 2 and the one sample 0 (the chunk converts to NaN), where
  the claim asks for 48 bytes, the sizes 40 and 4 and twice the sample 16383.
\<close>

theorem encodeWAV_two_sample_chunk:
  "encodeWAV [[Fin (1 / 2), Fin (1 / 2)]] 44100 =
     Inr \<lparr>blob_bytes =
            [82, 73, 70, 70, 38, 0, 0, 0, 87, 65, 86, 69, 102, 109, 116, 32, 16,
             0, 0, 0, 1, 0, 1, 0, 68, 172, 0, 0, 136, 88, 1, 0, 2, 0, 16, 0,
             100, 97, 116, 97, 2, 0, 0, 0, 0, 0],
          blob_type = ''audio/wav''\<rparr>"
  by (simp add: encodeWAV_eq wav_eval)

lemma buildWavFromFloat32_two_sample_chunk:
  "buildWavFromFloat32 [[Fin (1 / 2), Fin (1 / 2)]] 44100 =
     Inr \<lparr>blob_bytes =
            [82, 73, 70, 70, 40, 0, 0, 0, 87, 65, 86, 69, 102, 109, 116, 32, 16,
             0, 0, 0, 1, 0, 1, 0, 68, 172, 0, 0, 136, 88, 1, 0, 2, 0, 16, 0,
             100, 97, 116, 97, 4, 0, 0, 0, 255, 63, 255, 63],
          blob_type = ''audio/wav''\<rparr>"
  by (simp add: buildWavFromFloat32_eq wav_eval)


text \<open>
  Every chunk that \<^verbatim>\<open>encodeWAV\<close> is given comes from the script processor, which is
  created for 4096 samples (lines 139-144, 173). Such a chunk, left whole by
  \<^verbatim>\<open>samples.flat()\<close>, converts to NaN and is written as the one sample 0.
\<close>

lemma typed_array_to_number_chunk:
  "2 \<le> length c \<Longrightarrow> typed_array_to_number c = NaN"
  by (cases c; cases "tl c") (simp_all add: typed_array_to_number_def)

lemma encodeWAV_whole_chunks:
  assumes "\<forall>c \<in> set samples. length c = 4096"
  shows "encodeWAV samples rate =
     Inr \<lparr>blob_bytes = pcm_wav_header (length samples) rate @
                        concat (replicate (length samples) [0, 0]),
          blob_type = ''audio/wav''\<rparr>"
proof -
  have "map (\<lambda>c. le_bytes16 (wav_sample (typed_array_to_number c))) samples =
      replicate (length samples) [0, 0]"
    using assms
    by (induction samples)
      (simp_all add: typed_array_to_number_chunk wav_sample_def wav_scaled_def Math_max_def
        Math_min_def le_bytes16_def)
  then show ?thesis by (simp add: encodeWAV_eq)
qed





section \<open>The round trip through the WAV encoder\<close>

lemma sint_wav_sample_clamped:
  "- 1 \<le> s \<Longrightarrow> s \<le> 1 \<Longrightarrow>
   sint (wav_sample (Fin s)) = (if s < 0 then \<lceil>s * 32768\<rceil> else \<lfloor>s * 32767\<rfloor>)"
  by (simp add: sint_wav_sample_Fin Let_def trunc_def max_def min_def)

lemma wav_sample_negative:
  assumes "- 1 \<le> s" "s < 0"
  obtains k where "sint (wav_sample (Fin s)) = k" "k \<le> 0"
    "s * 32768 \<le> real_of_int k" "real_of_int k < s * 32768 + 1"
proof -
  have q: "sint (wav_sample (Fin s)) = \<lceil>s * 32768\<rceil>"
    using assms by (simp add: sint_wav_sample_clamped)
  have "\<lceil>s * 32768\<rceil> \<le> 0" using assms by (simp add: ceiling_le_iff)
  moreover have "s * 32768 \<le> real_of_int \<lceil>s * 32768\<rceil>" "real_of_int \<lceil>s * 32768\<rceil> < s * 32768 + 1"
    by linarith+
  ultimately show thesis using that q by simp
qed

lemma wav_sample_non_negative:
  assumes "0 \<le> s" "s \<le> 1"
  obtains k where "sint (wav_sample (Fin s)) = k" "0 \<le> k"
    "real_of_int k \<le> s * 32767" "s * 32767 < real_of_int k + 1"
proof -
  have q: "sint (wav_sample (Fin s)) = \<lfloor>s * 32767\<rfloor>"
    using assms by (simp add: sint_wav_sample_clamped)
  have "0 \<le> \<lfloor>s * 32767\<rfloor>" using assms by simp
  moreover have "real_of_int \<lfloor>s * 32767\<rfloor> \<le> s * 32767" "s * 32767 < real_of_int \<lfloor>s * 32767\<rfloor> + 1"
    by linarith+
  ultimately show thesis using that q by simp
qed

lemma dequantise_asymmetric_close:
  assumes "- 1 \<le> s" "s \<le> 1"
  shows "\<bar>s - dequantise_asymmetric (wav_sample (Fin s))\<bar> < 1 / 32767"
proof (cases "s < 0")
  case True
  with assms(1) obtain k where k: "sint (wav_sample (Fin s)) = k" "k \<le> 0"
      "s * 32768 \<le> real_of_int k" "real_of_int k < s * 32768 + 1"
    by (rule wav_sample_negative)
  show ?thesis
    unfolding dequantise_asymmetric_def k(1) using k(2,3,4)
    by (cases "k = 0"; simp add: abs_if; linarith)
next
  case False
  then have "0 \<le> s" by simp
  from this assms(2) obtain k where k: "sint (wav_sample (Fin s)) = k" "0 \<le> k"
      "real_of_int k \<le> s * 32767" "s * 32767 < real_of_int k + 1"
    by (rule wav_sample_non_negative)
  show ?thesis
    unfolding dequantise_asymmetric_def k(1) using k(2,3,4)
    by (simp add: abs_if; linarith)
qed

lemma dequantise_32768_close:
  assumes "- 1 \<le> s" "s \<le> 1"
  shows "\<bar>s - dequantise_32768 (wav_sample (Fin s))\<bar> < (if s < 0 then 1 else 2) / 32768"
proof (cases "s < 0")
  case True
  with assms(1) obtain k where k: "sint (wav_sample (Fin s)) = k" "k \<le> 0"
      "s * 32768 \<le> real_of_int k" "real_of_int k < s * 32768 + 1"
    by (rule wav_sample_negative)
  show ?thesis
    unfolding dequantise_32768_def k(1) using k(3,4) True
    by (simp add: abs_if; linarith)
next
  case False
  then have "0 \<le> s" by simp
  from this assms(2) obtain k where k: "sint (wav_sample (Fin s)) = k" "0 \<le> k"
      "real_of_int k \<le> s * 32767" "s * 32767 < real_of_int k + 1"
    by (rule wav_sample_non_negative)
  show ?thesis
    unfolding dequantise_32768_def k(1) using k(3,4) False assms
    by (simp add: abs_if; linarith)
qed

text \<open>
  Claim C8, as stated: decoding the encoder's output for samples in [-1, 1] gives as many
  samples, each, after inverse quantization, within 1/32768 of the input. For the sample
  \<open>32769 / 2^24\<close> (a 32-bit float) the encoder of the AudioRecorder stores 63, and both
  63 / 32767 and 63 / 32768 are further than 1/32768 away from the sample.
\<close>

theorem wav_round_trip_error_above_one_step:
  "buildWavFromFloat32 [[Fin (32769 / 16777216)]] 44100 =
     Inr \<lparr>blob_bytes =
            [82, 73, 70, 70, 38, 0, 0, 0, 87, 65, 86, 69, 102, 109, 116, 32, 16,
             0, 0, 0, 1, 0, 1, 0, 68, 172, 0, 0, 136, 88, 1, 0, 2, 0, 16, 0,
             100, 97, 116, 97, 2, 0, 0, 0, 63, 0],
          blob_type = ''audio/wav''\<rparr> \<and>
   decode_wav_samples
            [82, 73, 70, 70, 38, 0, 0, 0, 87, 65, 86, 69, 102, 109, 116, 32, 16,
             0, 0, 0, 1, 0, 1, 0, 68, 172, 0, 0, 136, 88, 1, 0, 2, 0, 16, 0,
             100, 97, 116, 97, 2, 0, 0, 0, 63, 0] = [63] \<and>
   1 / 32768 < \<bar>32769 / 16777216 - dequantise_asymmetric 63\<bar> \<and>
   1 / 32768 < \<bar>32769 / 16777216 - dequantise_32768 63\<bar>"
  by (simp add: buildWavFromFloat32_eq wav_eval decode_wav_samples_def int16_le_def
      dequantise_asymmetric_def dequantise_32768_def)

text \<open>
  Claim C8, amended, for \<^verbatim>\<open>buildWavFromFloat32\<close>: for chunks of samples in [-1, 1] and
  every sample rate the encoder returns a buffer; decoding it gives as many samples as
  were put in, in the same order, and each decoded sample is less than 1/32767 away from its
  input when it is divided by the encoder's own scale (32768 below zero, 32767 otherwise),
  and less than 2/32768 away (less than 1/32768 for a negative input) when it is divided by
  32768.
\<close>

theorem buildWavFromFloat32_round_trip:
  assumes "\<forall>c \<in> set chunks. \<forall>s \<in> set c. - 1 \<le> s \<and> s \<le> 1"
  shows "\<exists>b. buildWavFromFloat32 (map (map Fin) chunks) rate = Inr b \<and>
     list_all2
       (\<lambda>s q. \<bar>s - dequantise_asymmetric q\<bar> < 1 / 32767 \<and>
              \<bar>s - dequantise_32768 q\<bar> < (if s < 0 then 1 else 2) / 32768)
       (concat chunks) (decode_wav_samples (blob_bytes b))"
proof -
  obtain b where b: "buildWavFromFloat32 (map (map Fin) chunks) rate = Inr b"
    using buildWavFromFloat32_length by blast
  have pcm: "concat (map (map Fin) chunks) = map Fin (concat chunks)"
    by (simp add: map_concat)
  have "decode_wav_samples (blob_bytes b) = map (\<lambda>s. wav_sample (Fin s)) (concat chunks)"
    using decode_wav_samples_buildWavFromFloat32 [OF b] by (simp add: pcm comp_def)
  moreover have "list_all2
       (\<lambda>s q. \<bar>s - dequantise_asymmetric q\<bar> < 1 / 32767 \<and>
              \<bar>s - dequantise_32768 q\<bar> < (if s < 0 then 1 else 2) / 32768)
       (concat chunks) (map (\<lambda>s. wav_sample (Fin s)) (concat chunks))"
    unfolding list_all2_map2 list_all2_same
  proof
    fix s
    assume "s \<in> set (concat chunks)"
    then have "- 1 \<le> s" "s \<le> 1" using assms by auto
    then show "\<bar>s - dequantise_asymmetric (wav_sample (Fin s))\<bar> < 1 / 32767 \<and>
        \<bar>s - dequantise_32768 (wav_sample (Fin s))\<bar> < (if s < 0 then 1 else 2) / 32768"
      using dequantise_asymmetric_close dequantise_32768_close by blast
  qed
  ultimately have "list_all2
       (\<lambda>s q. \<bar>s - dequantise_asymmetric q\<bar> < 1 / 32767 \<and>
              \<bar>s - dequantise_32768 q\<bar> < (if s < 0 then 1 else 2) / 32768)
       (concat chunks) (decode_wav_samples (blob_bytes b))"
    by simp
  with b show ?thesis by blast
qed

theorem buildWavFromFloat32_round_trip_witness:
  "\<exists>b. buildWavFromFloat32 (map (map Fin) [[1 / 2, - 1 / 2], [1]]) 44100 = Inr b \<and>
     list_all2
       (\<lambda>s q. \<bar>s - dequantise_asymmetric q\<bar> < 1 / 32767 \<and>
              \<bar>s - dequantise_32768 q\<bar> < (if s < 0 then 1 else 2) / 32768)
       [1 / 2, - 1 / 2, 1] (decode_wav_samples (blob_bytes b))"
  using buildWavFromFloat32_round_trip [of "[[1 / 2, - 1 / 2], [1]]" 44100] by simp

section \<open>The frames handed to the MP3 codec\<close>

lemma length_store_int16 [simp]: "length (store_int16 arr i v) = length arr"
  by (simp add: store_int16_def)

lemma length_convert_loop:
  "length (fst (convert_loop l r i a b)) = length a \<and> length (snd (convert_loop l r i a b)) = length b"
  by (induction l r i a b rule: convert_loop.induct) (simp split: if_splits)

lemma convert_loop_left:
  "i \<le> length l \<Longrightarrow> length a = length l \<Longrightarrow>
   fst (convert_loop l r i a b) = take i a @ map mp3_sample (drop i l)"
proof (induction l r i a b rule: convert_loop.induct)
  case (1 l r i a b)
  show ?case
  proof (cases "i < length l")
    case True
    let ?a = "store_int16 a i (mp3_scaled (element l i))"
    have a: "?a = a[i := mp3_sample (l ! i)]"
      using True "1.prems" by (simp add: store_int16_def element_def mp3_sample_def)
    have "fst (convert_loop l r i a b) = take (i + 1) ?a @ map mp3_sample (drop (i + 1) l)"
      using True "1.prems" "1.IH" by simp
    also have "take (i + 1) ?a = take i a @ [mp3_sample (l ! i)]"
      using True "1.prems" by (simp add: a take_Suc_conv_app_nth)
    also have "(take i a @ [mp3_sample (l ! i)]) @ map mp3_sample (drop (i + 1) l)
        = take i a @ map mp3_sample (drop i l)"
      using True by (simp add: Cons_nth_drop_Suc [symmetric])
    finally show ?thesis .
  next
    case False
    with "1.prems" show ?thesis by simp
  qed
qed

lemma convert_loop_right:
  "i \<le> length r \<Longrightarrow> length r = length l \<Longrightarrow> length b = length r \<Longrightarrow>
   snd (convert_loop l r i a b) = take i b @ map mp3_sample (drop i r)"
proof (induction l r i a b rule: convert_loop.induct)
  case (1 l r i a b)
  show ?case
  proof (cases "i < length l")
    case True
    let ?b = "store_int16 b i (mp3_scaled (element r i))"
    have b: "?b = b[i := mp3_sample (r ! i)]"
      using True "1.prems" by (simp add: store_int16_def element_def mp3_sample_def)
    have "snd (convert_loop l r i a b) = take (i + 1) ?b @ map mp3_sample (drop (i + 1) r)"
      using True "1.prems" "1.IH" by simp
    also have "take (i + 1) ?b = take i b @ [mp3_sample (r ! i)]"
      using True "1.prems" by (simp add: b take_Suc_conv_app_nth)
    also have "(take i b @ [mp3_sample (r ! i)]) @ map mp3_sample (drop (i + 1) r)
        = take i b @ map mp3_sample (drop i r)"
      using True "1.prems" by (simp add: Cons_nth_drop_Suc [symmetric])
    finally show ?thesis .
  next
    case False
    with "1.prems" show ?thesis by simp
  qed
qed

lemma convert_channels_stereo:
  assumes "channels audioBuffer = l # r # others" and "length r = length l"
  shows "convert_channels audioBuffer = Inr (map mp3_sample l, map mp3_sample r)"
proof -
  let ?a = "replicate (length l) (0 :: 16 word)"
  let ?b = "replicate (length r) (0 :: 16 word)"
  have "fst (convert_loop l r 0 ?a ?b) = map mp3_sample l"
    using convert_loop_left [of 0 l ?a r ?b] by simp
  moreover have "snd (convert_loop l r 0 ?a ?b) = map mp3_sample r"
    using convert_loop_right [of 0 r l ?b ?a] assms(2) by simp
  ultimately have "convert_loop l r 0 ?a ?b = (map mp3_sample l, map mp3_sample r)"
    by (simp add: prod_eq_iff)
  then show ?thesis
    using assms(1)
    by (simp add: convert_channels_def getChannelData_def numberOfChannels_def and_then_def)
qed

lemma convert_loop_mono:
  "r = l \<Longrightarrow> b = a \<Longrightarrow> snd (convert_loop l r i a b) = fst (convert_loop l r i a b)"
  by (induction l r i a b rule: convert_loop.induct) (simp split: if_splits)

lemma convert_channels_mono:
  assumes "channels audioBuffer = [c]"
  shows "convert_channels audioBuffer = Inr (map mp3_sample c, map mp3_sample c)"
proof -
  let ?z = "replicate (length c) (0 :: 16 word)"
  have "fst (convert_loop c c 0 ?z ?z) = map mp3_sample c"
    using convert_loop_left [of 0 c ?z c ?z] by simp
  moreover have "snd (convert_loop c c 0 ?z ?z) = fst (convert_loop c c 0 ?z ?z)"
    by (rule convert_loop_mono) simp_all
  ultimately have "convert_loop c c 0 ?z ?z = (map mp3_sample c, map mp3_sample c)"
    by (simp add: prod_eq_iff)
  then show ?thesis
    using assms by (simp add: convert_channels_def getChannelData_def numberOfChannels_def and_then_def)
qed

lemma frame_count_less: "1152 * j < n \<longleftrightarrow> j < frame_count n"
proof -
  have "j < frame_count n \<longleftrightarrow> Suc j \<le> (n + 1151) div 1152"
    by (simp add: frame_count_def Suc_le_eq)
  also have "\<dots> \<longleftrightarrow> Suc j * 1152 \<le> n + 1151"
    by (simp add: less_eq_div_iff_mult_less_eq)
  also have "\<dots> \<longleftrightarrow> 1152 * j < n" by simp linarith
  finally show ?thesis by simp
qed

lemma subarray_frame: "subarray xs (1152 * k) (1152 * k + frame) = frame_of xs k"
  by (simp add: subarray_def frame_of_def frame_def)

lemma subarray_frame': "subarray xs (1152 * k) (1152 * Suc k) = frame_of xs k"
  by (simp add: subarray_def frame_of_def)

lemma encode_frames_from:
  "encode_frames host encoder left right (1152 * j) chunks calls =
     (let frames = map (\<lambda>k. (frame_of left k, frame_of right k)) [j..<frame_count (length left)];
          (outs, encoder') = codec_run host encoder frames
      in (encoder', chunks @ filter (\<lambda>out. out \<noteq> []) outs,
          calls @ map (\<lambda>(l, r). EncodeBuffer l r) frames))"
proof (induction "frame_count (length left) - j" arbitrary: j encoder chunks calls)
  case 0
  then have stop: "\<not> 1152 * j < length left" by (simp add: frame_count_less)
  have upt: "[j..<frame_count (length left)] = []" using 0 by simp
  have "encode_frames host encoder left right (1152 * j) chunks calls = (encoder, chunks, calls)"
    by (subst encode_frames.simps) (simp only: stop if_False)
  then show ?case unfolding upt by simp
next
  case (Suc d)
  then have lt: "j < frame_count (length left)" by simp
  then have i: "1152 * j < length left" by (simp add: frame_count_less)
  have upt: "[j..<frame_count (length left)] = j # [Suc j..<frame_count (length left)]"
    using lt by (simp add: upt_conv_Cons)
  obtain out encoder' where step:
    "encodeBuffer host encoder (frame_of left j) (frame_of right j) = (out, encoder')"
    by (cases "encodeBuffer host encoder (frame_of left j) (frame_of right j)")
  have next_i: "1152 * j + frame = 1152 * Suc j" by (simp add: frame_def)
  have d: "d = frame_count (length left) - Suc j" using Suc.hyps(2) by simp
  have "encode_frames host encoder left right (1152 * j) chunks calls =
      encode_frames host encoder' left right (1152 * Suc j)
        (if out \<noteq> [] then chunks @ [out] else chunks)
        (calls @ [EncodeBuffer (frame_of left j) (frame_of right j)])"
    by (subst encode_frames.simps)
      (simp only: i if_True next_i subarray_frame' Let_def step prod.case)
  also note Suc.hyps(1) [OF d]
  finally show ?case unfolding upt by (simp add: step split_beta Let_def)
qed


lemma length_frame_of: "length (frame_of xs k) = min 1152 (length xs - 1152 * k)"
  by (simp add: frame_of_def)

lemma length_frame_of_cases:
  assumes "k < frame_count (length xs)"
  shows "length (frame_of xs k) =
           (if Suc k < frame_count (length xs) then 1152 else length xs - 1152 * k)"
    and "0 < length (frame_of xs k)"
proof -
  have here: "1152 * k < length xs" using assms by (simp add: frame_count_less)
  have "Suc k < frame_count (length xs) \<longleftrightarrow> 1152 * Suc k < length xs"
    by (simp only: frame_count_less)
  with here show "length (frame_of xs k) =
           (if Suc k < frame_count (length xs) then 1152 else length xs - 1152 * k)"
    by (auto simp: length_frame_of min_def)
  from here show "0 < length (frame_of xs k)" by (simp add: length_frame_of)
qed

lemma concat_frames_from:
  "concat (map (frame_of xs) [j..<frame_count (length xs)]) = drop (1152 * j) xs"
proof (induction "frame_count (length xs) - j" arbitrary: j)
  case 0
  then have "\<not> 1152 * j < length xs" by (simp add: frame_count_less)
  moreover have "[j..<frame_count (length xs)] = []" using 0 by simp
  ultimately show ?case by (simp only: list.map concat.simps) simp
next
  case (Suc d)
  then have lt: "j < frame_count (length xs)" by simp
  have upt: "[j..<frame_count (length xs)] = j # [Suc j..<frame_count (length xs)]"
    using lt by (simp add: upt_conv_Cons)
  have d: "d = frame_count (length xs) - Suc j" using Suc.hyps(2) by simp
  have "concat (map (frame_of xs) [j..<frame_count (length xs)]) =
      take 1152 (drop (1152 * j) xs) @ drop (1152 * Suc j) xs"
    unfolding upt using Suc.hyps(1) [OF d] by (simp add: frame_of_def)
  also have "drop (1152 * Suc j) xs = drop 1152 (drop (1152 * j) xs)"
    by (simp add: add.commute)
  also have "take 1152 (drop (1152 * j) xs) @ drop 1152 (drop (1152 * j) xs) = drop (1152 * j) xs"
    by (rule append_take_drop_id)
  finally show ?case .
qed

lemma concat_frames: "concat (map (frame_of xs) [0..<frame_count (length xs)]) = xs"
  using concat_frames_from [of xs 0] by simp

lemma encode_mp3_eq:
  "encode_mp3 host rate left right =
     (let frames = map (\<lambda>k. (frame_of left k, frame_of right k)) [0..<frame_count (length left)];
          (outs, encoder') = codec_run host (Mp3Encoder host 2 rate 128) frames;
          end = flush host encoder'
      in (\<lparr>blob_bytes = concat (filter (\<lambda>out. out \<noteq> []) (outs @ [end])),
           blob_type = ''audio/mpeg''\<rparr>,
          NewEncoder 2 rate 128 # map (\<lambda>(l, r). EncodeBuffer l r) frames @ [Flush]))"
  unfolding encode_mp3_def
  using encode_frames_from [of host "Mp3Encoder host 2 rate 128" left right 0 "[]" "[NewEncoder 2 rate 128]"]
  by (simp add: Let_def split_beta)

lemma frame_count_ceiling: "int (frame_count n) = \<lceil>real n / 1152\<rceil>"
proof -
  define z where "z = (n + 1151) div 1152"
  have "1152 * z \<le> n + 1151" "n + 1151 < 1152 * z + 1152"
    unfolding z_def by simp_all
  then have "real n \<le> 1152 * real z" "1152 * real z < real n + 1152"
    by linarith+
  then have "\<lceil>real n / 1152\<rceil> = int z"
    by (intro ceiling_unique) (simp_all add: field_simps)
  then show ?thesis by (simp add: frame_count_def z_def)
qed

lemma getMp3Blob_decoded:
  assumes "decodeAudioData host (blob_bytes source) = Inr audioBuffer"
    and "convert_channels audioBuffer = Inr (left, right)"
    and "lamejs_defined host \<or> script_loads host"
  shows "getMp3Blob host (Some source) =
           (Inr (fst (encode_mp3 host (sampleRate audioBuffer) left right)),
            snd (encode_mp3 host (sampleRate audioBuffer) left right))"
  using assms by (auto simp: getMp3Blob_def split_beta)

lemma convert_channels_first:
  assumes "channels audioBuffer = c # others"
    and "length (case others of [] \<Rightarrow> c | r # rest \<Rightarrow> r) = length c"
  shows "convert_channels audioBuffer =
           Inr (map mp3_sample c, map mp3_sample (case others of [] \<Rightarrow> c | r # rest \<Rightarrow> r))"
proof (cases others)
  case Nil
  with assms(1) show ?thesis by (simp add: convert_channels_mono)
next
  case (Cons r rest)
  with assms show ?thesis by (simp add: convert_channels_stereo)
qed

lemma sum_length_frames:
  "sum_list (map (\<lambda>k. length (frame_of xs k)) [0..<frame_count (length xs)]) = length xs"
proof -
  have "length (concat (map (frame_of xs) [0..<frame_count (length xs)])) = length xs"
    by (simp only: concat_frames)
  then show ?thesis by (simp add: length_concat comp_def)
qed

lemma two_frames: "[0..<2] = [0, 1]"
  by (simp add: upt_rec)

text \<open>
  Claim C2: for a source that decodes to \<open>N\<close> samples per channel, \<^verbatim>\<open>getMp3Blob\<close>
  constructs the encoder, gives it exactly \<open>\<lceil>N / 1152\<rceil>\<close> frames, frame \<open>k\<close> holding the
  converted samples of both channels from \<open>1152 * k\<close> on, each of 1152 samples but the
  last, which holds the rest and is never empty, and flushes it once after the last frame;
  the lengths of the frames add up to \<open>N\<close> and the frames together are the converted
  samples in order; and the MP3 buffer it returns is the non-empty outputs of the frames in
  order, followed by the output of the flush. \<open>N\<close> is the length of the first channel of
  the decoded buffer; the right channel handed to the codec is the second channel, or the
  first again for a mono source. The hypotheses say that the source decodes, that the
  channel used as the right one is as long as the first (an \<^verbatim>\<open>AudioBuffer\<close> has one
  length for all its channels), and that the codec library is there or loads.
\<close>

theorem getMp3Blob_frames:
  assumes "decodeAudioData host (blob_bytes source) = Inr audioBuffer"
    and "channels audioBuffer = c # others"
    and "length (case others of [] \<Rightarrow> c | r # rest \<Rightarrow> r) = length c"
    and "lamejs_defined host \<or> script_loads host"
  shows "snd (getMp3Blob host (Some source)) =
       NewEncoder 2 (sampleRate audioBuffer) 128 #
       map (\<lambda>k. EncodeBuffer
                  (frame_of (map mp3_sample c) k)
                  (frame_of (map mp3_sample (case others of [] \<Rightarrow> c | r # rest \<Rightarrow> r)) k))
         [0..<frame_count (length c)] @
       [Flush] \<and>
     int (frame_count (length c)) = \<lceil>real (length c) / 1152\<rceil> \<and>
     (\<forall>k < frame_count (length c).
        0 < length (frame_of (map mp3_sample c) k) \<and>
        length (frame_of (map mp3_sample c) k) =
          (if Suc k < frame_count (length c) then 1152 else length c - 1152 * k) \<and>
        length (frame_of (map mp3_sample (case others of [] \<Rightarrow> c | r # rest \<Rightarrow> r)) k) =
          length (frame_of (map mp3_sample c) k)) \<and>
     sum_list (map (\<lambda>k. length (frame_of (map mp3_sample c) k)) [0..<frame_count (length c)]) =
       length c \<and>
     concat (map (frame_of (map mp3_sample c)) [0..<frame_count (length c)]) = map mp3_sample c \<and>
     fst (getMp3Blob host (Some source)) =
       Inr (let (outs, encoder') =
                  codec_run host (Mp3Encoder host 2 (sampleRate audioBuffer) 128)
                    (map (\<lambda>k. (frame_of (map mp3_sample c) k,
                               frame_of (map mp3_sample
                                 (case others of [] \<Rightarrow> c | r # rest \<Rightarrow> r)) k))
                       [0..<frame_count (length c)])
            in \<lparr>blob_bytes = concat (filter (\<lambda>out. out \<noteq> []) outs) @ flush host encoder',
                 blob_type = ''audio/mpeg''\<rparr>)"
proof -
  define left where "left = map mp3_sample c"
  define right where "right = map mp3_sample (case others of [] \<Rightarrow> c | r # rest \<Rightarrow> r)"
  have len: "length left = length c" "length right = length c"
    using assms(3) by (simp_all add: left_def right_def)
  have conv: "convert_channels audioBuffer = Inr (left, right)"
    unfolding left_def right_def using assms(2,3) by (rule convert_channels_first)
  have run: "getMp3Blob host (Some source) =
      (Inr (fst (encode_mp3 host (sampleRate audioBuffer) left right)),
       snd (encode_mp3 host (sampleRate audioBuffer) left right))"
    using assms(1) conv assms(4) by (rule getMp3Blob_decoded)
  have calls: "snd (getMp3Blob host (Some source)) =
       NewEncoder 2 (sampleRate audioBuffer) 128 #
       map (\<lambda>k. EncodeBuffer (frame_of left k) (frame_of right k)) [0..<frame_count (length c)] @
       [Flush]"
    unfolding run by (simp add: encode_mp3_eq Let_def split_beta comp_def len)
  have result: "fst (getMp3Blob host (Some source)) =
       Inr (let (outs, encoder') =
                  codec_run host (Mp3Encoder host 2 (sampleRate audioBuffer) 128)
                    (map (\<lambda>k. (frame_of left k, frame_of right k)) [0..<frame_count (length c)])
            in \<lparr>blob_bytes = concat (filter (\<lambda>out. out \<noteq> []) outs) @ flush host encoder',
                 blob_type = ''audio/mpeg''\<rparr>)"
    unfolding run by (simp add: encode_mp3_eq Let_def split_beta len)
  have count: "int (frame_count (length c)) = \<lceil>real (length c) / 1152\<rceil>"
    by (rule frame_count_ceiling)
  have frames: "0 < length (frame_of left k) \<and>
        length (frame_of left k) =
          (if Suc k < frame_count (length c) then 1152 else length c - 1152 * k) \<and>
        length (frame_of right k) = length (frame_of left k)"
    if "k < frame_count (length c)" for k
    using length_frame_of_cases [of k left] that by (simp add: len length_frame_of)
  have total: "sum_list (map (\<lambda>k. length (frame_of left k)) [0..<frame_count (length c)]) = length c"
    using sum_length_frames [of left] by (simp add: len)
  have whole: "concat (map (frame_of left) [0..<frame_count (length c)]) = left"
    using concat_frames [of left] by (simp add: len)
  from calls count frames total whole result show ?thesis
    unfolding left_def right_def by blast
qed

theorem getMp3Blob_frames_witness:
  "getMp3Blob example_host (Some \<lparr>blob_bytes = replicate 1153 128, blob_type = ''audio/wav''\<rparr>) =
     (Inr \<lparr>blob_bytes = [1, 255], blob_type = ''audio/mpeg''\<rparr>,
      [NewEncoder 2 8000 128,
       EncodeBuffer (replicate 1152 16384) (replicate 1152 16384),
       EncodeBuffer [16384] [16384],
       Flush])"
  using getMp3Blob_frames [of example_host
      "\<lparr>blob_bytes = replicate 1153 128, blob_type = ''audio/wav''\<rparr>"
      "\<lparr>channels = [replicate 1153 (Fin (1 / 2))], sampleRate = 8000\<rparr>"
      "replicate 1153 (Fin (1 / 2))" "[]"]
  by (simp add: example_host_def frame_count_def frame_of_def two_frames prod_eq_iff
      mp3_sample_def mp3_scaled_def Math_max_def Math_min_def trunc_def)


section \<open>Mono sources and sources that do not decode\<close>

text \<open>
  Claim C7: for a mono source the right channel handed to the codec is the left channel
  again, so both 16-bit streams are the conversion of the one channel, frame by frame, and
  the encoder is constructed for two channels.
\<close>

theorem getMp3Blob_mono:
  assumes "decodeAudioData host (blob_bytes source) = Inr audioBuffer"
    and "channels audioBuffer = [c]"
    and "lamejs_defined host \<or> script_loads host"
  shows "convert_channels audioBuffer = Inr (map mp3_sample c, map mp3_sample c) \<and>
     snd (getMp3Blob host (Some source)) =
       NewEncoder 2 (sampleRate audioBuffer) 128 #
       map (\<lambda>k. EncodeBuffer (frame_of (map mp3_sample c) k) (frame_of (map mp3_sample c) k))
         [0..<frame_count (length c)] @
       [Flush]"
proof -
  have conv: "convert_channels audioBuffer = Inr (map mp3_sample c, map mp3_sample c)"
    using assms(2) by (rule convert_channels_mono)
  have "snd (getMp3Blob host (Some source)) =
      snd (encode_mp3 host (sampleRate audioBuffer) (map mp3_sample c) (map mp3_sample c))"
    using getMp3Blob_decoded [OF assms(1) conv assms(3)] by simp
  with conv show ?thesis by (simp add: encode_mp3_eq Let_def split_beta comp_def)
qed

theorem getMp3Blob_mono_witness:
  "snd (getMp3Blob example_host (Some \<lparr>blob_bytes = [64, 128], blob_type = ''audio/wav''\<rparr>)) =
     [NewEncoder 2 8000 128, EncodeBuffer [8192, 16384] [8192, 16384], Flush]"
  using getMp3Blob_mono [of example_host "\<lparr>blob_bytes = [64, 128], blob_type = ''audio/wav''\<rparr>"
      "\<lparr>channels = [[Fin (1 / 4), Fin (1 / 2)]], sampleRate = 8000\<rparr>" "[Fin (1 / 4), Fin (1 / 2)]"]
  by (simp add: example_host_def frame_count_def frame_of_def mp3_sample_def mp3_scaled_def
      Math_max_def Math_min_def trunc_def)

text \<open>
  Claim C9: when the source does not decode, the MP3 encode fails with the decoder's error
  before the codec is given anything, and returns no output: no encoder is constructed, no
  frame is submitted, nothing is flushed.
\<close>

theorem getMp3Blob_decode_failure:
  assumes "decodeAudioData host (blob_bytes source) = Inl err"
  shows "getMp3Blob host (Some source) = (Inl err, [])"
  using assms by (simp add: getMp3Blob_def)

theorem getMp3Blob_decode_failure_witness:
  "getMp3Blob example_host (Some \<lparr>blob_bytes = [], blob_type = ''audio/webm''\<rparr>) =
     (Inl (DOMException ''EncodingError''), [])"
  using getMp3Blob_decode_failure [of example_host "\<lparr>blob_bytes = [], blob_type = ''audio/webm''\<rparr>"
      "DOMException ''EncodingError''"]
  by (simp add: example_host_def)

lemma getMp3Blob_no_audio:
  "getMp3Blob host None = (Inl (Error ''No audio to process''), [])"
  by (simp add: getMp3Blob_def)

section \<open>Encoding that fails\<close>

lemmas recorder_eval = example_stopped_def example_capture_def example_props_def mounted_def
  requestPermissionAndStart_def start_MediaRecorder_def ondataavailable_def stopRecording_def
  recorder_stopped_def handleRecordingStop_def createObjectURL_def media_recorder_stop_def
  notify_error_def

lemma example_stopped_eq:
  "example_stopped =
     \<lparr>status = Stopped,
      audioBlob = Some \<lparr>blob_bytes = [1, 2, 3], blob_type = ''audio/webm''\<rparr>,
      audioURL = Some 0, errorMessage = None, isProcessing = False,
      mediaRecorderRef = Some \<lparr>activity = Inactive, stop_queued = False\<rparr>,
      audioChunksRef = [[1, 2], [3]], audioContextRef = None,
      mediaStreamRef = Some Live, sourceNodeRef = None, processorRef = None,
      pcmBuffersRef = [], captureModeRef = Some Mediarecorder, object_urls = 1\<rparr>"
  by (simp add: recorder_eval)

text \<open>
  Claim C4, as stated: a failing MP3 encode leaves the capture state at stopped. For the
  finished recording of the example and a decoder that fails, \<^verbatim>\<open>uploadMp3\<close> ends in the
  status error.
\<close>

theorem failed_upload_sets_error_status:
  "status example_stopped = Stopped \<and>
   uploadMp3 example_undecodable_host
       example_props example_stopped =
     (example_stopped\<lparr>status := Error_status, errorMessage := Some ''EncodingError''\<rparr>,
      [OnError ''EncodingError''])"
  unfolding example_stopped_eq
  by (simp add: uploadMp3_def getMp3Blob_def encode_failed_def notify_error_def example_props_def
      example_undecodable_host_def Let_def)

text \<open>
  Claim C4, amended: when the MP3 encode of the current audio fails with \<open>e\<close>, the
  upload and save wrappers leave the audio blob and its URL as they are, clear
  \<^verbatim>\<open>isProcessing\<close>, set the status to error with the message of \<open>e\<close>, and report the
  message to \<^verbatim>\<open>onError\<close> when there is one; nothing is handed to \<^verbatim>\<open>onUpload\<close> or
  \<^verbatim>\<open>onSave\<close>. (\<^verbatim>\<open>getMp3Blob\<close> itself sets no state: it only reads the audio blob.)
\<close>

theorem failed_encode_keeps_audio:
  assumes "audioBlob w = Some source"
    and "fst (getMp3Blob host (audioBlob w)) = Inl e"
  shows "(onUpload p \<noteq> None \<longrightarrow>
            uploadMp3 host p w =
              (w\<lparr>isProcessing := False, status := Error_status,
                 errorMessage := Some (error_message e)\<rparr>,
               notify_error p (error_message e))) \<and>
         (onSave p \<noteq> None \<longrightarrow>
            handleSave host p w =
              (w\<lparr>isProcessing := False, status := Error_status,
                 errorMessage := Some (error_message e)\<rparr>,
               notify_error p (error_message e))) \<and>
         audioBlob (fst (uploadMp3 host p w)) = audioBlob w \<and>
         audioURL (fst (uploadMp3 host p w)) = audioURL w \<and>
         audioBlob (fst (handleSave host p w)) = audioBlob w \<and>
         audioURL (fst (handleSave host p w)) = audioURL w"
  using assms
  by (auto simp: uploadMp3_def handleSave_def encode_failed_def Let_def split: option.splits)

theorem failed_encode_keeps_audio_witness:
  "audioBlob example_stopped = Some \<lparr>blob_bytes = [1, 2, 3], blob_type = ''audio/webm''\<rparr> \<and>
   onUpload example_props \<noteq> None \<and> onSave example_props \<noteq> None \<and>
   uploadMp3 example_undecodable_host
       example_props example_stopped =
     (example_stopped\<lparr>isProcessing := False, status := Error_status,
                      errorMessage := Some ''EncodingError''\<rparr>,
      [OnError ''EncodingError'']) \<and>
   handleSave example_undecodable_host
       example_props example_stopped =
     (example_stopped\<lparr>isProcessing := False, status := Error_status,
                      errorMessage := Some ''EncodingError''\<rparr>,
      [OnError ''EncodingError''])"
  using failed_encode_keeps_audio
    [of example_stopped "\<lparr>blob_bytes = [1, 2, 3], blob_type = ''audio/webm''\<rparr>"
      example_undecodable_host
      "DOMException ''EncodingError''" example_props]
  by (simp add: example_stopped_eq getMp3Blob_def example_props_def notify_error_def
      example_undecodable_host_def)

section \<open>Stopping twice\<close>

lemma media_recorder_stop_twice: "media_recorder_stop (media_recorder_stop r) = media_recorder_stop r"
  by (simp add: media_recorder_stop_def)




text \<open>
  \<^verbatim>\<open>stopRecording\<close> of the second component, which has no test of \<^verbatim>\<open>recording\<close>,
  branch by branch; the states in which a second call changes nothing, and the states
  outside a recording in which a call changes nothing. The microphone button is the only
  caller: it calls \<^verbatim>\<open>stopRecording\<close> in the renders with \<^verbatim>\<open>recording\<close> set, and
  \<^verbatim>\<open>stopRecording\<close> clears \<^verbatim>\<open>recording\<close>, so that the next click starts a recording.
\<close>

lemma wav_engaged_flags [simp]:
  "wav_engaged (v\<lparr>vm_recording := a, vm_pulse := b\<rparr>) = wav_engaged v"
  by (simp add: wav_engaged_def)

lemma vm_stopRecording_fallback:
  assumes "vm_isWavFallback v \<and> wav_engaged v"
  shows "vm_stopRecording v =
     v\<lparr>vm_recording := False, vm_pulse := False,
       vm_object_urls := vm_object_urls v + 1,
       vm_audioUrl :=
         Some (vm_object_urls v,
               \<lparr>blob_bytes = pcm_wav_header (length (vm_bufferRef v)) (vm_wavSampleRateRef v) @
                   concat (map (\<lambda>c. le_bytes16 (wav_sample (typed_array_to_number c)))
                             (vm_bufferRef v)),
                blob_type = ''audio/wav''\<rparr>),
       vm_audioMime := Some ''audio/wav'', vm_procRef := None, vm_inputRef := None,
       vm_audioContextRef := None, vm_wavStreamRef := None, vm_bufferRef := []\<rparr>"
  using assms by (simp add: vm_stopRecording_def Let_def encodeWAV_eq vm_createObjectURL_def)

lemma vm_stopRecording_recorder:
  assumes "\<not> (vm_isWavFallback v \<and> wav_engaged v)"
  shows "vm_stopRecording v =
     v\<lparr>vm_recording := False, vm_pulse := False,
       vm_mediaRecorderRef := map_option media_recorder_stop (vm_mediaRecorderRef v)\<rparr>"
  using assms by (cases "vm_mediaRecorderRef v") (auto simp: vm_stopRecording_def Let_def)

lemma vm_stopRecording_not_recording: "\<not> vm_recording (vm_stopRecording v)"
proof (cases "vm_isWavFallback v \<and> wav_engaged v")
  case True
  show ?thesis by (simp add: vm_stopRecording_fallback [OF True])
next
  case False
  show ?thesis by (simp add: vm_stopRecording_recorder [OF False])
qed

lemma mic_onClick_after_stop: "mic_onClick (vm_stopRecording v) = StartRecording"
  by (simp add: mic_onClick_def vm_stopRecording_not_recording)

lemma mic_onClick_stop: "(mic_onClick v = StopRecording) = vm_recording v"
  by (simp add: mic_onClick_def)

lemma media_recorder_stop_fixed:
  "(media_recorder_stop r = r) = (activity r = Inactive)"
proof
  assume "media_recorder_stop r = r"
  then have "activity (media_recorder_stop r) = activity r" by simp
  then show "activity r = Inactive" by (simp add: media_recorder_stop_def split: if_splits)
qed (simp add: media_recorder_stop_def)

lemma recorder_stop_fixed:
  "(map_option media_recorder_stop m = m) =
     (case m of None \<Rightarrow> True | Some r \<Rightarrow> activity r = Inactive)"
  by (cases m) (simp_all add: media_recorder_stop_fixed)

lemma vm_stopRecording_twice_iff:
  "(vm_stopRecording (vm_stopRecording v) = vm_stopRecording v) =
     (vm_isWavFallback v \<and> wav_engaged v \<longrightarrow> recorder_idle v)"
proof (cases "vm_isWavFallback v \<and> wav_engaged v")
  case False
  have first: "vm_stopRecording v =
     v\<lparr>vm_recording := False, vm_pulse := False,
       vm_mediaRecorderRef := map_option media_recorder_stop (vm_mediaRecorderRef v)\<rparr>"
    using False by (rule vm_stopRecording_recorder)
  have "\<not> (vm_isWavFallback (vm_stopRecording v) \<and> wav_engaged (vm_stopRecording v))"
    unfolding first using False by (simp add: wav_engaged_def)
  then have "vm_stopRecording (vm_stopRecording v) =
     (vm_stopRecording v)\<lparr>vm_recording := False, vm_pulse := False,
       vm_mediaRecorderRef :=
         map_option media_recorder_stop (vm_mediaRecorderRef (vm_stopRecording v))\<rparr>"
    by (rule vm_stopRecording_recorder)
  also have "\<dots> = vm_stopRecording v"
    unfolding first by (cases "vm_mediaRecorderRef v") (simp_all add: media_recorder_stop_twice)
  finally have "vm_stopRecording (vm_stopRecording v) = vm_stopRecording v" .
  with False show ?thesis by blast
next
  case True
  let ?v = "vm_stopRecording v"
  have same_ref: "vm_mediaRecorderRef ?v = vm_mediaRecorderRef v"
    by (simp add: vm_stopRecording_fallback [OF True])
  have "\<not> (vm_isWavFallback ?v \<and> wav_engaged ?v)"
    by (simp add: vm_stopRecording_fallback [OF True] wav_engaged_def)
  then have second: "vm_stopRecording ?v =
     ?v\<lparr>vm_recording := False, vm_pulse := False,
        vm_mediaRecorderRef := map_option media_recorder_stop (vm_mediaRecorderRef ?v)\<rparr>"
    by (rule vm_stopRecording_recorder)
  have flags: "\<not> vm_recording ?v" "\<not> vm_pulse ?v"
    by (simp_all add: vm_stopRecording_fallback [OF True])
  have "(vm_stopRecording ?v = ?v) =
      (map_option media_recorder_stop (vm_mediaRecorderRef v) = vm_mediaRecorderRef v)"
  proof
    assume "vm_stopRecording ?v = ?v"
    then have "vm_mediaRecorderRef (vm_stopRecording ?v) = vm_mediaRecorderRef ?v" by simp
    then show "map_option media_recorder_stop (vm_mediaRecorderRef v) = vm_mediaRecorderRef v"
      unfolding second by (simp add: same_ref)
  next
    assume "map_option media_recorder_stop (vm_mediaRecorderRef v) = vm_mediaRecorderRef v"
    then show "vm_stopRecording ?v = ?v"
      unfolding second using flags by (simp add: same_ref)
  qed
  then show ?thesis using True by (simp add: recorder_stop_fixed recorder_idle_def)
qed

lemma vm_stopRecording_unchanged_iff:
  assumes "\<not> vm_recording v"
  shows "(vm_stopRecording v = v) =
     (\<not> vm_pulse v \<and> \<not> (vm_isWavFallback v \<and> wav_engaged v) \<and> recorder_idle v)"
proof (cases "vm_isWavFallback v \<and> wav_engaged v")
  case True
  have "\<not> wav_engaged (vm_stopRecording v)"
    by (simp add: vm_stopRecording_fallback [OF True] wav_engaged_def)
  with True have "vm_stopRecording v \<noteq> v" by auto
  with True show ?thesis by simp
next
  case False
  have run: "vm_stopRecording v =
     v\<lparr>vm_recording := False, vm_pulse := False,
       vm_mediaRecorderRef := map_option media_recorder_stop (vm_mediaRecorderRef v)\<rparr>"
    using False by (rule vm_stopRecording_recorder)
  have "(vm_stopRecording v = v) =
      (\<not> vm_pulse v \<and>
       map_option media_recorder_stop (vm_mediaRecorderRef v) = vm_mediaRecorderRef v)"
  proof
    assume same: "vm_stopRecording v = v"
    then have "vm_pulse (vm_stopRecording v) = vm_pulse v"
      "vm_mediaRecorderRef (vm_stopRecording v) = vm_mediaRecorderRef v"
      by simp_all
    then show "\<not> vm_pulse v \<and>
        map_option media_recorder_stop (vm_mediaRecorderRef v) = vm_mediaRecorderRef v"
      unfolding run by simp
  next
    assume "\<not> vm_pulse v \<and>
        map_option media_recorder_stop (vm_mediaRecorderRef v) = vm_mediaRecorderRef v"
    then show "vm_stopRecording v = v" unfolding run using assms by simp
  qed
  then show ?thesis using False by (simp add: recorder_stop_fixed recorder_idle_def)
qed



section \<open>Starting outside idle\<close>


lemma no_request_notify_error: "Device_request \<notin> set (notify_error p msg)"
  by (simp add: notify_error_def)








lemma status_start_MediaRecorder: "status (fst (start_MediaRecorder host w)) = status w"
  by (simp add: start_MediaRecorder_def Let_def split: option.splits)






end
